theory Spec2Isabelle
  imports Complex_Main "HOL-Library.Product_Lexorder"
begin

section \<open>Python values and exceptions\<close>

text \<open>
  Exceptions are values: a computation that raises returns \<open>Inl e\<close>, one that returns
  \<open>v\<close> gives \<open>Inr v\<close>.
\<close>

datatype error =
    ValueError
  | NotImplementedError
  | RuntimeError
  | IndexError
  | TypeError
  | AssertionError
  | ZeroDivisionError
  | AttributeError
  | KeyError
  | Exception

section \<open>Floating-point numbers\<close>

text \<open>
  The values of a Python \<open>float\<close> and of a numpy \<open>float64\<close>: IEEE 754 binary64. A finite
  value is \<open>Fin x\<close> with \<open>x\<close> the real number it stands for (the two zeros are not told
  apart, nothing below divides); the others are the two infinities and NaN.
\<close>

datatype double = Fin real | PInf | NInf | NaN

definition pow2 :: "int \<Rightarrow> real" where
  "pow2 e = (if 0 \<le> e then 2 ^ nat e else 1 / 2 ^ nat (- e))"

text \<open>The integer nearest to \<open>x\<close>, the even one of the two when \<open>x\<close> is half-way.\<close>

definition round_half_even :: "real \<Rightarrow> int" where
  "round_half_even x =
     (let f = \<lfloor>x\<rfloor>; d = x - of_int f
      in if d < 1 / 2 then f
         else if 1 / 2 < d then f + 1
         else if even f then f else f + 1)"

text \<open>
  Rounding of a real number to binary64, to nearest with ties to even, which every
  arithmetic operation applies to its exact result. A number of magnitude in
  \<open>[2^E, 2^(E+1))\<close> is rounded to a multiple of \<open>2^(E-52)\<close> (53 significant bits), of
  \<open>2^(-1074)\<close> in the subnormal range; a result of magnitude \<open>2^1024\<close> or more
  overflows to an infinity.
\<close>

definition round_double :: "real \<Rightarrow> double" where
  "round_double x =
     (if x = 0 then Fin 0
      else (let e = max (\<lfloor>log 2 \<bar>x\<bar>\<rfloor> - 52) (- 1074);
                r = of_int (round_half_even (x / pow2 e)) * pow2 e
            in if 2 ^ 1024 \<le> \<bar>r\<bar> then (if 0 < x then PInf else NInf) else Fin r))"

fun fneg :: "double \<Rightarrow> double" where
  "fneg (Fin x) = Fin (- x)"
| "fneg PInf = NInf"
| "fneg NInf = PInf"
| "fneg NaN = NaN"

fun fabs :: "double \<Rightarrow> double" where
  "fabs (Fin x) = Fin \<bar>x\<bar>"
| "fabs PInf = PInf"
| "fabs NInf = PInf"
| "fabs NaN = NaN"

fun fadd :: "double \<Rightarrow> double \<Rightarrow> double" where
  "fadd (Fin x) (Fin y) = round_double (x + y)"
| "fadd NaN y = NaN"
| "fadd x NaN = NaN"
| "fadd PInf NInf = NaN"
| "fadd NInf PInf = NaN"
| "fadd PInf y = PInf"
| "fadd x PInf = PInf"
| "fadd NInf y = NInf"
| "fadd x NInf = NInf"

definition fsub :: "double \<Rightarrow> double \<Rightarrow> double" where
  "fsub x y = fadd x (fneg y)"

fun fmul :: "double \<Rightarrow> double \<Rightarrow> double" where
  "fmul (Fin x) (Fin y) = round_double (x * y)"
| "fmul NaN y = NaN"
| "fmul x NaN = NaN"
| "fmul (Fin x) PInf = (if x = 0 then NaN else if 0 < x then PInf else NInf)"
| "fmul (Fin x) NInf = (if x = 0 then NaN else if 0 < x then NInf else PInf)"
| "fmul PInf (Fin y) = (if y = 0 then NaN else if 0 < y then PInf else NInf)"
| "fmul NInf (Fin y) = (if y = 0 then NaN else if 0 < y then NInf else PInf)"
| "fmul PInf PInf = PInf"
| "fmul NInf NInf = PInf"
| "fmul PInf NInf = NInf"
| "fmul NInf PInf = NInf"

text \<open>The comparison \<open>x <= y\<close>: false as soon as one side is NaN.\<close>

fun fle :: "double \<Rightarrow> double \<Rightarrow> bool" where
  "fle (Fin x) (Fin y) = (x \<le> y)"
| "fle NaN y = False"
| "fle x NaN = False"
| "fle NInf y = True"
| "fle x PInf = True"
| "fle PInf y = False"
| "fle x NInf = False"

text \<open>The comparison \<open>x == y\<close> of two floats: NaN is equal to nothing.\<close>

definition feq :: "double \<Rightarrow> double \<Rightarrow> bool" where
  "feq x y = (x = y \<and> x \<noteq> NaN)"

fun isfinite :: "double \<Rightarrow> bool" where
  "isfinite (Fin x) = True"
| "isfinite y = False"

section \<open>numpy\<close>

text \<open>
  A numpy array as \<open>quantile\<close> sees it: a zero-dimensional scalar array, a vector, or an
  array of two or more dimensions (\<open>HigherDim k\<close> has \<open>k + 2\<close> dimensions; its contents
  are never read, the function raises on its dimension check first).
\<close>

datatype ndarray = Scalar double | Vector "double list" | HigherDim nat

fun ndim :: "ndarray \<Rightarrow> nat" where
  "ndim (Scalar v) = 0"
| "ndim (Vector xs) = 1"
| "ndim (HigherDim k) = k + 2"

text \<open>
  Two reductions of numpy whose results depend on algorithms that are not part of this
  repository are parameters of the model: the order in which \<open>np.sum\<close> adds more than
  one element (each addition rounds, so the order matters), and all of \<open>np.quantile\<close>
  with \<open>method="higher"\<close>, which returns a value or raises. Every theorem below holds for
  all values of these parameters.
\<close>

record numpy =
  sum_impl :: "double list \<Rightarrow> double"
  quantile_higher_impl :: "double list \<Rightarrow> double \<Rightarrow> error + double"

text \<open>
  \<open>np.sum\<close> of a vector: 0 for no element, the element itself for one, and the
  parameter for more.
\<close>

definition np_sum :: "numpy \<Rightarrow> double list \<Rightarrow> double" where
  "np_sum N xs = (case xs of [] \<Rightarrow> Fin 0 | [x] \<Rightarrow> x | x # y # ys \<Rightarrow> sum_impl N xs)"

definition np_quantile_higher :: "numpy \<Rightarrow> double list \<Rightarrow> double \<Rightarrow> error + double" where
  "np_quantile_higher N xs q = quantile_higher_impl N xs q"

text \<open>
  \<open>np.cumsum\<close>: the first element as it is, then each element added to the sum before
  it, in this order, every addition rounded.
\<close>

fun cumsum_from :: "double \<Rightarrow> double list \<Rightarrow> double list" where
  "cumsum_from acc [] = []"
| "cumsum_from acc (x # xs) = fadd acc x # cumsum_from (fadd acc x) xs"

fun cumsum :: "double list \<Rightarrow> double list" where
  "cumsum [] = []"
| "cumsum (x # xs) = x # cumsum_from x xs"

text \<open>
  \<open>np.argsort(a)\<close>: the indices of \<open>a\<close> in ascending order of their values, NaN last.
  Equal values are kept in the order of their indices here (numpy does not promise an
  order between them).
\<close>

fun sort_rank :: "double \<Rightarrow> nat \<times> real" where
  "sort_rank NInf = (0, 0)"
| "sort_rank (Fin x) = (1, x)"
| "sort_rank PInf = (2, 0)"
| "sort_rank NaN = (3, 0)"

definition argsort :: "double list \<Rightarrow> nat list" where
  "argsort a = sort_key (\<lambda>i. sort_rank (a ! i)) [0..<length a]"

text \<open>
  The literals \<open>1e-5\<close> and \<open>1e-6\<close>: a decimal literal is the float nearest to it.
\<close>

definition float_1e_5 :: double where
  "float_1e_5 = round_double (1 / 10 ^ 5)"

definition float_1e_6 :: double where
  "float_1e_6 = round_double (1 / 10 ^ 6)"

text \<open>
  \<open>np.isclose(x, y, atol=atol)\<close> on two floats, with numpy's default \<open>rtol = 1e-5\<close>:
  for finite \<open>x\<close> and \<open>y\<close> it is \<open>abs(x - y) <= atol + rtol * abs(y)\<close>, computed in
  floating point; otherwise it is \<open>x == y\<close>.
\<close>

definition isclose :: "double \<Rightarrow> double \<Rightarrow> double \<Rightarrow> bool" where
  "isclose x y atol =
     (if isfinite x \<and> isfinite y
      then fle (fabs (fsub x y)) (fadd atol (fmul float_1e_5 (fabs y)))
      else feq x y)"

section \<open>utils.quantile\<close>

text \<open>
  The weighted branch of \<open>quantile\<close> (lines 53-57), from the sorted indices on:
  \<open>sorted_idxs[sorted_cumsum_w >= alpha]\<close> keeps the sorted indices whose cumulative
  weight reaches \<open>alpha\<close>; \<open>[0]\<close> takes the first and raises IndexError when none is
  left.
\<close>

definition weighted_quantile_from :: "nat list \<Rightarrow> double \<Rightarrow> double list \<Rightarrow> nat list" where
  "weighted_quantile_from sorted_idxs alpha w =
     (let sorted_cumsum_w = cumsum (map (\<lambda>i. w ! i) sorted_idxs)
      in map fst (filter (\<lambda>(i, c). fle alpha c) (zip sorted_idxs sorted_cumsum_w)))"

definition weighted_quantile_idxs :: "double list \<Rightarrow> double \<Rightarrow> double list \<Rightarrow> nat list" where
  "weighted_quantile_idxs a alpha w = weighted_quantile_from (argsort a) alpha w"

text \<open>
  \<open>quantile(a, alpha, w=None)\<close> (lines 12-57). The guard on \<open>alpha\<close> is
  \<open>alpha <= 0 or alpha >= 1\<close>, two comparisons that are false for NaN. The guards on the
  dimensions are \<open>a.ndim > 1\<close> and \<open>w.ndim > 1\<close>, so a zero-dimensional array passes
  them: without weights \<open>np.quantile\<close> is called on its only value, with weights
  \<open>len(w)\<close>, then \<open>len(a)\<close>, raises TypeError on it. The last branch of each case is
  never reached, the guards having raised before.
\<close>

definition quantile :: "numpy \<Rightarrow> ndarray \<Rightarrow> double \<Rightarrow> ndarray option \<Rightarrow> error + double" where
  "quantile N a alpha w =
     (if fle alpha (Fin 0) \<or> fle (Fin 1) alpha then Inl ValueError
      else if ndim a > 1 then Inl NotImplementedError
      else if (case w of None \<Rightarrow> False | Some wa \<Rightarrow> ndim wa > 1) then Inl NotImplementedError
      else case w of
        None \<Rightarrow>
          (case a of
             Scalar v \<Rightarrow> np_quantile_higher N [v] alpha
           | Vector xs \<Rightarrow> np_quantile_higher N xs alpha
           | HigherDim k \<Rightarrow> Inl NotImplementedError)
      | Some wa \<Rightarrow>
          (case (wa, a) of
             (Vector ws, Vector xs) \<Rightarrow>
               if length ws \<noteq> length xs then Inl RuntimeError
               else if \<not> isclose (np_sum N ws) (Fin 1) float_1e_6 then Inl RuntimeError
               else (case weighted_quantile_idxs xs alpha ws of
                       [] \<Rightarrow> Inl IndexError
                     | i # rest \<Rightarrow> Inr (xs ! i))
           | (Scalar v, b) \<Rightarrow> Inl TypeError
           | (Vector ws, Scalar v) \<Rightarrow> Inl TypeError
           | (b, c) \<Rightarrow> Inl NotImplementedError))"


section \<open>conformalization: ConformalPredictor and CrossValCpAggregator\<close>

text \<open>
  The predictor, the calibrator and the splitter are external collaborators. A predictor
  object is a value of type \<open>'p\<close>, a calibrator object one of type \<open>'c\<close>; their methods
  are the fields of an interface record, each returning the new object where the method
  mutates it. \<open>'x\<close> is the type of feature arrays and \<open>'v\<close> that of label and prediction
  arrays. \<open>deepcopy\<close> of such a value is the value itself.
\<close>

type_synonym 'v prediction = "'v \<times> 'v option \<times> 'v option \<times> 'v option"

record ('p, 'x, 'v) predictor_api =
  p_fit :: "'p \<Rightarrow> 'x \<Rightarrow> 'v \<Rightarrow> error + 'p"
  p_predict :: "'p \<Rightarrow> 'x \<Rightarrow> error + 'v prediction"
  p_is_trained :: "'p \<Rightarrow> bool"

text \<open>
  \<open>c_fit c y_true y_pred X var_pred y_pred_lo y_pred_hi\<close> and
  \<open>c_calibrate c X alpha y_pred var_pred y_pred_lo y_pred_hi\<close>, in the order of the
  keyword arguments at the call sites; \<open>c_residuals\<close> reads the attribute \<open>_residuals\<close>.
\<close>

record ('c, 'x, 'v) calibrator_api =
  c_fit :: "'c \<Rightarrow> 'v \<Rightarrow> 'v \<Rightarrow> 'x \<Rightarrow> 'v option \<Rightarrow> 'v option \<Rightarrow> 'v option \<Rightarrow> error + 'c"
  c_calibrate :: "'c \<Rightarrow> 'x \<Rightarrow> real \<Rightarrow> 'v \<Rightarrow> 'v option \<Rightarrow> 'v option \<Rightarrow> 'v option
                    \<Rightarrow> error + 'v \<times> 'v"
  c_residuals :: "'c \<Rightarrow> 'v"
  c_get_weights :: "'c \<Rightarrow> error + 'v"

text \<open>
  A Python dict, in insertion order: assigning to a key that is present replaces its value
  in place, a new key goes to the end.
\<close>

type_synonym ('k, 'a) dict = "('k \<times> 'a) list"

fun dict_set :: "'k \<Rightarrow> 'a \<Rightarrow> ('k, 'a) dict \<Rightarrow> ('k, 'a) dict" where
  "dict_set k v [] = [(k, v)]"
| "dict_set k v ((k', v') # rest) =
     (if k' = k then (k, v) # rest else (k', v') # dict_set k v rest)"

definition dict_keys :: "('k, 'a) dict \<Rightarrow> 'k list" where
  "dict_keys d = map fst d"

text \<open>\<open>sub in s\<close> on Python strings: \<open>sub\<close> occurs in \<open>s\<close> as a contiguous substring.\<close>

fun str_in :: "string \<Rightarrow> string \<Rightarrow> bool" where
  "str_in sub [] = (sub = [])"
| "str_in sub (c # cs) = (take (length sub) (c # cs) = sub \<or> str_in sub cs)"

text \<open>
  The fields of a CrossValCpAggregator (\<open>K\<close>, \<open>_predictors\<close>, \<open>_calibrators\<close>,
  \<open>method\<close>). A fold's calibrator is \<open>None\<close> when the ConformalPredictor has none.
\<close>

record ('p, 'c) aggregator =
  agg_K :: int
  agg_predictors :: "(nat, 'p) dict"
  agg_calibrators :: "(nat, 'c option) dict"
  agg_method :: string

text \<open>
  \<open>CrossValCpAggregator.__init__\<close> (lines 142-155). The guard is
  \<open>method not in ("cv+")\<close>: the parentheses hold a string, not a tuple, so \<open>in\<close> is the
  substring test. In its branch \<open>NotImplemented(...)\<close> calls the constant
  \<open>NotImplemented\<close>, which is not callable: the call raises TypeError before \<open>return\<close>.
\<close>

definition CrossValCpAggregator_init :: "int \<Rightarrow> string \<Rightarrow> error + ('p, 'c) aggregator" where
  "CrossValCpAggregator_init k m =
     (if \<not> str_in m ''cv+'' then Inl TypeError
      else Inr \<lparr>agg_K = k, agg_predictors = [], agg_calibrators = [], agg_method = m\<rparr>)"

definition append_predictor :: "nat \<Rightarrow> 'p \<Rightarrow> ('p, 'c) aggregator \<Rightarrow> ('p, 'c) aggregator" where
  "append_predictor i predictor agg =
     agg\<lparr>agg_predictors := dict_set i predictor (agg_predictors agg)\<rparr>"

definition append_calibrator ::
  "nat \<Rightarrow> 'c option \<Rightarrow> ('p, 'c) aggregator \<Rightarrow> ('p, 'c) aggregator" where
  "append_calibrator i calibrator agg =
     agg\<lparr>agg_calibrators := dict_set i calibrator (agg_calibrators agg)\<rparr>"

text \<open>
  \<open>get_residuals\<close> and \<open>get_weights\<close> of the aggregator (lines 163-178): one entry per
  fold; reading an attribute of a \<open>None\<close> calibrator raises AttributeError.
\<close>

fun agg_get_residuals ::
  "('c, 'x, 'v) calibrator_api \<Rightarrow> (nat, 'c option) dict \<Rightarrow> error + (nat, 'v) dict" where
  "agg_get_residuals C [] = Inr []"
| "agg_get_residuals C ((k, None) # rest) = Inl AttributeError"
| "agg_get_residuals C ((k, Some c) # rest) =
     (case agg_get_residuals C rest of
        Inl e \<Rightarrow> Inl e
      | Inr d \<Rightarrow> Inr ((k, c_residuals C c) # d))"

fun agg_get_weights ::
  "('c, 'x, 'v) calibrator_api \<Rightarrow> (nat, 'c option) dict \<Rightarrow> error + (nat, 'v) dict" where
  "agg_get_weights C [] = Inr []"
| "agg_get_weights C ((k, None) # rest) = Inl AttributeError"
| "agg_get_weights C ((k, Some c) # rest) =
     (case c_get_weights C c of
        Inl e \<Rightarrow> Inl e
      | Inr w \<Rightarrow>
          (case agg_get_weights C rest of
             Inl e \<Rightarrow> Inl e
           | Inr d \<Rightarrow> Inr ((k, w) # d)))"

text \<open>
  \<open>CrossValCpAggregator.predict\<close> (lines 180-229). \<open>CvPlusCalibrator\<close> belongs to
  the module \<open>deel.puncc.calibration\<close>: \<open>cvplus calibrators X predictors alpha\<close>
  stands for \<open>CvPlusCalibrator(calibrators).calibrate(X=X,
  kfold_predictors_dict=predictors, alpha=alpha)\<close> and is a parameter. The result is the
  tuple \<open>(y_pred, y_lo, y_hi, var_pred)\<close>, whose first and last components may be
  \<open>None\<close>.
\<close>

definition agg_predict ::
  "('p, 'x, 'v) predictor_api \<Rightarrow> ('c, 'x, 'v) calibrator_api
   \<Rightarrow> ((nat, 'c option) dict \<Rightarrow> 'x \<Rightarrow> (nat, 'p) dict \<Rightarrow> real \<Rightarrow> error + 'v \<times> 'v)
   \<Rightarrow> ('p, 'c) aggregator \<Rightarrow> 'x \<Rightarrow> real
   \<Rightarrow> error + 'v option \<times> 'v \<times> 'v \<times> 'v option" where
  "agg_predict P C cvplus agg X alpha =
     (if set (dict_keys (agg_predictors agg)) \<noteq> set (dict_keys (agg_calibrators agg))
      then Inl AssertionError
      else if length (dict_keys (agg_predictors agg)) = 1 then
        (case agg_predictors agg of
           [] \<Rightarrow> Inl RuntimeError
         | (k, predictor) # rest \<Rightarrow>
             (case map_of (agg_calibrators agg) k of
                None \<Rightarrow> Inl KeyError
              | Some calibrator \<Rightarrow>
                  (case p_predict P predictor X of
                     Inl e \<Rightarrow> Inl e
                   | Inr (y_pred, y_pred_lo, y_pred_hi, var_pred) \<Rightarrow>
                       (case calibrator of
                          None \<Rightarrow> Inl AttributeError
                        | Some c \<Rightarrow>
                            (case c_calibrate C c X alpha y_pred var_pred y_pred_lo y_pred_hi of
                               Inl e \<Rightarrow> Inl e
                             | Inr (y_lo, y_hi) \<Rightarrow> Inr (Some y_pred, y_lo, y_hi, var_pred))))))
      else if agg_method agg = ''cv+'' then
        (case cvplus (agg_calibrators agg) X (agg_predictors agg) alpha of
           Inl e \<Rightarrow> Inl e
         | Inr (y_lo, y_hi) \<Rightarrow> Inr (None, y_lo, y_hi, None))
      else Inl RuntimeError)"

text \<open>
  The fields of a ConformalPredictor; \<open>cp_cv_cp_agg\<close> is \<open>_cv_cp_agg\<close>, \<open>None\<close> until
  \<open>fit\<close> assigns it.
\<close>

record ('p, 'c, 'x, 'v) conformal_predictor =
  cp_calibrator :: "'c option"
  cp_predictor :: 'p
  cp_splitter :: "'x \<Rightarrow> 'v \<Rightarrow> ('x \<times> 'v \<times> 'x \<times> 'v) list"
  cp_method :: string
  cp_train :: bool
  cp_cv_cp_agg :: "('p, 'c) aggregator option"

definition ConformalPredictor_init ::
  "'c option \<Rightarrow> 'p \<Rightarrow> ('x \<Rightarrow> 'v \<Rightarrow> ('x \<times> 'v \<times> 'x \<times> 'v) list) \<Rightarrow> string \<Rightarrow> bool
   \<Rightarrow> ('p, 'c, 'x, 'v) conformal_predictor" where
  "ConformalPredictor_init calibrator predictor splitter method train =
     \<lparr>cp_calibrator = calibrator, cp_predictor = predictor, cp_splitter = splitter,
      cp_method = method, cp_train = train, cp_cv_cp_agg = None\<rparr>"

text \<open>
  What a call hands back to its caller when it does not raise: the value computed, or an
  exception instance returned as an ordinary value (\<open>return RuntimeError(...)\<close>).
\<close>

datatype 'a returned = Value 'a | ExceptionInstance error

definition get_residuals ::
  "('c, 'x, 'v) calibrator_api \<Rightarrow> ('p, 'c, 'x, 'v) conformal_predictor
   \<Rightarrow> error + (nat, 'v) dict returned" where
  "get_residuals C self =
     (case cp_cv_cp_agg self of
        None \<Rightarrow> Inr (ExceptionInstance RuntimeError)
      | Some agg \<Rightarrow>
          (case agg_get_residuals C (agg_calibrators agg) of
             Inl e \<Rightarrow> Inl e
           | Inr d \<Rightarrow> Inr (Value d)))"

definition get_weights ::
  "('c, 'x, 'v) calibrator_api \<Rightarrow> ('p, 'c, 'x, 'v) conformal_predictor
   \<Rightarrow> error + (nat, 'v) dict returned" where
  "get_weights C self =
     (case cp_cv_cp_agg self of
        None \<Rightarrow> Inr (ExceptionInstance RuntimeError)
      | Some agg \<Rightarrow>
          (case agg_get_weights C (agg_calibrators agg) of
             Inl e \<Rightarrow> Inl e
           | Inr d \<Rightarrow> Inr (Value d)))"

definition cp_predict ::
  "('p, 'x, 'v) predictor_api \<Rightarrow> ('c, 'x, 'v) calibrator_api
   \<Rightarrow> ((nat, 'c option) dict \<Rightarrow> 'x \<Rightarrow> (nat, 'p) dict \<Rightarrow> real \<Rightarrow> error + 'v \<times> 'v)
   \<Rightarrow> ('p, 'c, 'x, 'v) conformal_predictor \<Rightarrow> 'x \<Rightarrow> real
   \<Rightarrow> error + 'v option \<times> 'v \<times> 'v \<times> 'v option" where
  "cp_predict P C cvplus self X alpha =
     (case cp_cv_cp_agg self of
        None \<Rightarrow> Inl RuntimeError
      | Some agg \<Rightarrow> agg_predict P C cvplus agg X alpha)"

text \<open>
  \<open>ConformalPredictor.fit\<close> (lines 54-106). The loop works on one local predictor and one
  local calibrator, refitted fold after fold; each fold stores a deep copy of their state
  at that moment. The result is the exception raised, if any, and the object as the call
  leaves it (\<open>_cv_cp_agg\<close> is assigned before the loop and filled in place).
\<close>

fun fit_folds ::
  "('p, 'x, 'v) predictor_api \<Rightarrow> ('c, 'x, 'v) calibrator_api \<Rightarrow> bool
   \<Rightarrow> nat \<Rightarrow> ('x \<times> 'v \<times> 'x \<times> 'v) list \<Rightarrow> 'p \<Rightarrow> 'c option \<Rightarrow> ('p, 'c) aggregator
   \<Rightarrow> error option \<times> ('p, 'c) aggregator" where
  "fit_folds P C train i [] predictor calibrator agg = (None, agg)"
| "fit_folds P C train i ((X_fit, y_fit, X_calib, y_calib) # splits) predictor calibrator agg =
     (case (if train then p_fit P predictor X_fit y_fit
            else if \<not> p_is_trained P predictor then Inl RuntimeError
            else Inr predictor) of
        Inl e \<Rightarrow> (Some e, agg)
      | Inr predictor' \<Rightarrow>
          (case (case calibrator of
                   None \<Rightarrow> Inr None
                 | Some c \<Rightarrow>
                     (case p_predict P predictor' X_calib of
                        Inl e \<Rightarrow> Inl e
                      | Inr (y_pred, y_pred_lo, y_pred_hi, var_pred) \<Rightarrow>
                          (case c_fit C c y_calib y_pred X_calib var_pred y_pred_lo y_pred_hi of
                             Inl e \<Rightarrow> Inl e
                           | Inr c' \<Rightarrow> Inr (Some c')))) of
             Inl e \<Rightarrow> (Some e, agg)
           | Inr calibrator' \<Rightarrow>
               fit_folds P C train (Suc i) splits predictor' calibrator'
                 (append_calibrator i calibrator' (append_predictor i predictor' agg))))"

definition cp_fit ::
  "('p, 'x, 'v) predictor_api \<Rightarrow> ('c, 'x, 'v) calibrator_api
   \<Rightarrow> ('p, 'c, 'x, 'v) conformal_predictor \<Rightarrow> 'x \<Rightarrow> 'v
   \<Rightarrow> error option \<times> ('p, 'c, 'x, 'v) conformal_predictor" where
  "cp_fit P C self X y =
     (let splits = cp_splitter self X y in
      case CrossValCpAggregator_init (int (length splits)) (cp_method self) of
        Inl e \<Rightarrow> (Some e, self)
      | Inr agg \<Rightarrow>
          if length splits > 1 \<and> \<not> cp_train self
          then (Some Exception, self\<lparr>cp_cv_cp_agg := Some agg\<rparr>)
          else (case fit_folds P C (cp_train self) 0 splits
                       (cp_predictor self) (cp_calibrator self) agg of
                  (r, agg') \<Rightarrow> (r, self\<lparr>cp_cv_cp_agg := Some agg'\<rparr>)))"

section \<open>regression.EnbPI\<close>

text \<open>
  In this section the floating-point numbers of the program are modelled by exact reals,
  so rounding is not part of the model of EnbPI.
\<close>

subsection \<open>Python list objects\<close>

text \<open>
  Python lists are mutable objects reached through references: \<open>+=\<close> changes the object
  in place, for every name bound to it, while \<open>list(...)\<close>, \<open>deepcopy\<close> and slicing build a
  new object. The store maps a reference to the contents of its list; references below
  \<open>next_ref\<close> are the ones in use.
\<close>

type_synonym ref = nat

record heap =
  cells :: "ref \<Rightarrow> real list"
  next_ref :: ref

definition alloc :: "real list \<Rightarrow> heap \<Rightarrow> ref \<times> heap" where
  "alloc xs h =
     (next_ref h, h\<lparr>cells := (cells h)(next_ref h := xs), next_ref := Suc (next_ref h)\<rparr>)"

text \<open>\<open>r += xs\<close> on the list object \<open>r\<close>.\<close>

definition list_iadd :: "ref \<Rightarrow> real list \<Rightarrow> heap \<Rightarrow> heap" where
  "list_iadd r xs h = h\<lparr>cells := (cells h)(r := cells h r @ xs)\<rparr>"

subsection \<open>Collaborators\<close>

text \<open>
  The base predictor of EnbPI, an object of type \<open>'p\<close> with \<open>copy\<close>, \<open>fit\<close> (which
  returns the fitted object) and \<open>predict\<close> (one prediction per row of \<open>X\<close>). The
  predictor is taken to honour its contract: its methods return. \<open>'x\<close> is the type of a
  feature row.
\<close>

record ('p, 'x) base_predictor =
  bp_copy :: "'p \<Rightarrow> 'p"
  bp_fit :: "'p \<Rightarrow> 'x list \<Rightarrow> real list \<Rightarrow> 'p"
  bp_predict :: "'p \<Rightarrow> 'x list \<Rightarrow> real list"

text \<open>
  \<open>nonconformity_scores.mad(y_pred, y_true)\<close> and
  \<open>prediction_sets.constant_interval(y_pred, w)\<close> belong to the package
  \<open>deel.puncc.api\<close> and are parameters.
\<close>

record scoring =
  mad :: "real list \<Rightarrow> real list \<Rightarrow> real list"
  constant_interval :: "real list \<Rightarrow> real \<Rightarrow> real list \<times> real list"

text \<open>
  The random generator behind \<open>sklearn.utils.resample\<close>: \<open>rng_draw g T\<close> draws \<open>T\<close>
  indices below \<open>T\<close> from the generator state \<open>g\<close> and gives the next state;
  \<open>rng_seeded seed\<close> is the state of a generator freshly seeded with \<open>seed\<close>.
\<close>

record 'g rng =
  rng_draw :: "'g \<Rightarrow> nat \<Rightarrow> nat list \<times> 'g"
  rng_seeded :: "int \<Rightarrow> 'g"

definition rng_ok :: "'g rng \<Rightarrow> nat \<Rightarrow> bool" where
  "rng_ok R T = (\<forall>g. length (fst (rng_draw R g T)) = T \<and> (\<forall>i \<in> set (fst (rng_draw R g T)). i < T))"

text \<open>
  \<open>resample(horizon_indices, replace=True, n_samples=T, random_state=random_state_b)\<close>
  with \<open>horizon_indices = arange(T)\<close>. With \<open>random_state_b = None\<close> the draw comes from
  the global generator \<open>g\<close> and advances it; with an integer seed it comes from a
  generator freshly seeded with it, and the global generator is untouched.
\<close>

definition resample :: "'g rng \<Rightarrow> int option \<Rightarrow> nat \<Rightarrow> 'g \<Rightarrow> nat list \<times> 'g" where
  "resample R random_state_b T g =
     (case random_state_b of
        None \<Rightarrow> rng_draw R g T
      | Some seed \<Rightarrow> (fst (rng_draw R (rng_seeded R seed) T), g))"

text \<open>\<open>np.setdiff1d(horizon_indices, boot)\<close>.\<close>

definition setdiff1d :: "nat list \<Rightarrow> nat list \<Rightarrow> nat list" where
  "setdiff1d horizon boot = filter (\<lambda>i. i \<notin> set boot) (remdups (sort horizon))"

subsection \<open>The object\<close>

text \<open>
  The attributes of an EnbPI object, prefixed \<open>e_\<close>. \<open>e_residuals\<close> refers to the list
  object \<open>self.residuals\<close>. \<open>_oob_dict\<close> and \<open>_boot_dict\<close> have the keys \<open>0, ..., B - 1\<close>
  and are the lists of their values; \<open>_oob_matrix\<close> does not exist before \<open>fit\<close>
  (\<open>None\<close> here).
\<close>

record 'p enbpi =
  e_predictor :: 'p
  e_B :: nat
  e_agg_func_loo :: "real list list \<Rightarrow> real list"
  e_residuals :: ref
  e_boot_predictors :: "'p list option"
  e_random_state :: "int option"
  e_oob_dict :: "nat list list"
  e_boot_dict :: "nat list list"
  e_oob_matrix :: "real list list option"

definition EnbPI_init ::
  "'p \<Rightarrow> nat \<Rightarrow> (real list list \<Rightarrow> real list) \<Rightarrow> int option \<Rightarrow> heap \<Rightarrow> 'p enbpi \<times> heap" where
  "EnbPI_init predictor B agg_func_loo random_state h =
     (case alloc [] h of
        (r, h') \<Rightarrow>
          (\<lparr>e_predictor = predictor, e_B = B, e_agg_func_loo = agg_func_loo,
            e_residuals = r, e_boot_predictors = None, e_random_state = random_state,
            e_oob_dict = [], e_boot_dict = [], e_oob_matrix = None\<rparr>, h'))"

definition compute_residuals :: "scoring \<Rightarrow> real list \<Rightarrow> real list \<Rightarrow> real list" where
  "compute_residuals S y_pred y_true = mad S y_pred y_true"

definition compute_pi :: "scoring \<Rightarrow> real list \<Rightarrow> real \<Rightarrow> real list \<times> real list" where
  "compute_pi S y_pred w = constant_interval S y_pred w"

text \<open>
  \<open>_compute_boot_residuals\<close>: \<open>(self._oob_matrix * boot_pred.T).sum(-1)\<close> multiplies the
  \<open>T \<times> B\<close> matrix entry by entry with the transposed predictions and sums each row.
\<close>

definition compute_boot_residuals ::
  "scoring \<Rightarrow> real list list \<Rightarrow> real list list \<Rightarrow> real list \<Rightarrow> real list" where
  "compute_boot_residuals S oob_matrix boot_pred y_true =
     (let loo_pred = map (\<lambda>(row, col). sum_list (map2 (*) row col))
                         (zip oob_matrix (transpose boot_pred))
      in mad S loo_pred y_true)"

text \<open>\<open>_compute_loo_predictions\<close>: \<open>np.matmul(self._oob_matrix, boot_pred)\<close>.\<close>

definition matmul :: "real list list \<Rightarrow> real list list \<Rightarrow> real list list" where
  "matmul M N = map (\<lambda>row. map (\<lambda>col. sum_list (map2 (*) row col)) (transpose N)) M"

definition compute_loo_predictions :: "real list list \<Rightarrow> real list list \<Rightarrow> real list list" where
  "compute_loo_predictions oob_matrix boot_pred = matmul oob_matrix boot_pred"

subsection \<open>fit\<close>

text \<open>
  The sampling loop of one bootstrap (lines 591-603): resample with \<open>random_state_b\<close>
  until the out-of-bag set is not empty. The loop may run forever: \<open>None\<close> is the run
  that does not return. (\<open>resample\<close> never returns \<open>None\<close> for the one array it is
  given, so the sanity check of line 599 never fires.)
\<close>

partial_function (option) sample_until_oob ::
  "'g rng \<Rightarrow> int option \<Rightarrow> nat \<Rightarrow> 'g \<Rightarrow> ((nat list \<times> nat list) \<times> 'g) option" where
  "sample_until_oob R random_state_b T g =
     (case resample R random_state_b T g of
        (boot, g') \<Rightarrow>
          (let oob_units = setdiff1d [0..<T] boot
           in if length oob_units = 0 then sample_until_oob R random_state_b T g'
              else Some ((boot, oob_units), g')))"

text \<open>
  The loop over \<open>b in range(self.B)\<close> (lines 579-606), with
  \<open>random_state_b = None if self.random_state is None else self.random_state + b\<close>.
\<close>

fun sample_bootstraps ::
  "'g rng \<Rightarrow> int option \<Rightarrow> nat \<Rightarrow> nat list \<Rightarrow> 'g \<Rightarrow> ((nat list \<times> nat list) list \<times> 'g) option" where
  "sample_bootstraps R random_state T [] g = Some ([], g)"
| "sample_bootstraps R random_state T (b # bs) g =
     (case sample_until_oob R (map_option (\<lambda>r. r + int b) random_state) T g of
        None \<Rightarrow> None
      | Some (sample, g') \<Rightarrow>
          (case sample_bootstraps R random_state T bs g' of
             None \<Rightarrow> None
           | Some (samples, g'') \<Rightarrow> Some (sample # samples, g'')))"

text \<open>
  The rows of the out-of-bag matrix (lines 614-627): row \<open>i\<close> has a 1 in column \<open>b\<close> when
  sample \<open>i\<close> is out of bag for model \<open>b\<close>; a row that sums to 0 raises RuntimeError.
\<close>

definition oobs_for_unit :: "nat \<Rightarrow> nat list list \<Rightarrow> nat \<Rightarrow> real list" where
  "oobs_for_unit B oob_dict i = map (\<lambda>b. if i \<in> set (oob_dict ! b) then 1 else 0) [0..<B]"

fun build_oob_matrix :: "nat \<Rightarrow> nat list list \<Rightarrow> nat list \<Rightarrow> error + real list list" where
  "build_oob_matrix B oob_dict [] = Inr []"
| "build_oob_matrix B oob_dict (i # rest) =
     (if sum_list (oobs_for_unit B oob_dict i) = 0 then Inl RuntimeError
      else case build_oob_matrix B oob_dict rest of
             Inl e \<Rightarrow> Inl e
           | Inr rows \<Rightarrow> Inr (oobs_for_unit B oob_dict i # rows))"

text \<open>Lines 630-632: every entry is divided by the sum of its row.\<close>

definition normalize_rows :: "real list list \<Rightarrow> real list list" where
  "normalize_rows M = map (\<lambda>row. map (\<lambda>v. v / sum_list row) row) M"

text \<open>\<open>a[idx]\<close> with an index array: IndexError when an index is out of range.\<close>

definition take_rows :: "'a list \<Rightarrow> nat list \<Rightarrow> error + 'a list" where
  "take_rows a idx =
     (if \<forall>i \<in> set idx. i < length a then Inr (map (\<lambda>i. a ! i) idx) else Inl IndexError)"

fun fit_boot_predictors ::
  "('p, 'x) base_predictor \<Rightarrow> 'p \<Rightarrow> 'x list \<Rightarrow> real list \<Rightarrow> nat list list \<Rightarrow> error + 'p list" where
  "fit_boot_predictors A predictor X_train y_train [] = Inr []"
| "fit_boot_predictors A predictor X_train y_train (boot # boots) =
     (case take_rows X_train boot of
        Inl e \<Rightarrow> Inl e
      | Inr X_boot \<Rightarrow>
          (case take_rows y_train boot of
             Inl e \<Rightarrow> Inl e
           | Inr y_boot \<Rightarrow>
               (case fit_boot_predictors A predictor X_train y_train boots of
                  Inl e \<Rightarrow> Inl e
                | Inr ps \<Rightarrow> Inr (bp_fit A (bp_copy A predictor) X_boot y_boot # ps))))"

text \<open>
  \<open>EnbPI.fit\<close> (lines 560-650), from the global generator state \<open>g\<close> and the store \<open>h\<close>.
  \<open>None\<close>: the call does not return. \<open>Some (Inl e)\<close>: it raises \<open>e\<close> (the object it
  leaves behind is not modelled). \<open>Some (Inr (self', h', g'))\<close>: it returns, leaving the
  object, the store and the generator as given.
\<close>

definition fit ::
  "('p, 'x) base_predictor \<Rightarrow> scoring \<Rightarrow> 'g rng \<Rightarrow> 'p enbpi \<Rightarrow> 'x list \<Rightarrow> real list
   \<Rightarrow> heap \<Rightarrow> 'g \<Rightarrow> (error + 'p enbpi \<times> heap \<times> 'g) option" where
  "fit A S R self X_train y_train h g =
     (let T = length X_train in
      case sample_bootstraps R (e_random_state self) T [0..<e_B self] g of
        None \<Rightarrow> None
      | Some (samples, g') \<Rightarrow>
          Some
            (let boot_dict = map fst samples; oob_dict = map snd samples in
             case build_oob_matrix (e_B self) oob_dict [0..<T] of
               Inl e \<Rightarrow> Inl e
             | Inr rows \<Rightarrow>
                 (let oob_matrix = normalize_rows rows in
                  case fit_boot_predictors A (e_predictor self) X_train y_train boot_dict of
                    Inl e \<Rightarrow> Inl e
                  | Inr boot_predictors \<Rightarrow>
                      (let boot_preds = map (\<lambda>b. bp_predict A (boot_predictors ! b) X_train)
                                            [0..<e_B self];
                           residuals = compute_boot_residuals S oob_matrix boot_preds y_train
                       in Inr (self\<lparr>e_oob_dict := oob_dict, e_boot_dict := boot_dict,
                                     e_oob_matrix := Some oob_matrix,
                                     e_boot_predictors := Some boot_predictors\<rparr>,
                               list_iadd (e_residuals self) residuals h, g')))))"

text \<open>
  What the sampling loop retains for one bootstrap: a draw of the generator and its
  out-of-bag complement.
\<close>

definition sample_ok :: "'g rng \<Rightarrow> nat \<Rightarrow> nat list \<times> nat list \<Rightarrow> bool" where
  "sample_ok R T sample =
     (snd sample = setdiff1d [0..<T] (fst sample) \<and> (\<exists>g0. fst sample = fst (rng_draw R g0 T)))"

subsection \<open>predict\<close>

text \<open>
  \<open>np.quantile(xs, q)\<close> with the default method \<open>"linear"\<close>: ValueError when \<open>q\<close> is
  outside \<open>[0, 1]\<close>; otherwise the sorted values are interpolated at the position
  \<open>q * (n - 1)\<close>. The empty array is modelled as an IndexError.
\<close>

definition np_quantile_linear :: "real list \<Rightarrow> real \<Rightarrow> error + real" where
  "np_quantile_linear xs q =
     (if q < 0 \<or> 1 < q then Inl ValueError
      else if xs = [] then Inl IndexError
      else (let srt = sort xs;
                pos = q * real (length xs - 1);
                lo = nat \<lfloor>pos\<rfloor>;
                hi = min (lo + 1) (length xs - 1)
            in Inr (srt ! lo + (pos - real lo) * (srt ! hi - srt ! lo))))"

text \<open>
  Lines 684-690: the number of batches and the batch size. Without \<open>y_true\<close> or without
  \<open>s\<close> there is one batch of the size of the test set; otherwise
  \<open>n_batches = len(y_true) // s\<close>, which raises ZeroDivisionError for \<open>s = 0\<close>. The loop
  runs \<open>i\<close> over \<open>np.arange(n_batches)\<close>, which is empty when \<open>n_batches \<le> 0\<close>; a batch
  size is used only inside the loop, where it is not negative.
\<close>

definition batch_plan :: "'x list \<Rightarrow> real list option \<Rightarrow> int option \<Rightarrow> error + nat \<times> nat" where
  "batch_plan X_test y_true s =
     (case (y_true, s) of
        (Some yt, Some sv) \<Rightarrow>
          if sv = 0 then Inl ZeroDivisionError
          else Inr (nat (int (length yt) div sv), nat sv)
      | (Some yt, None) \<Rightarrow> Inr (1, length X_test)
      | (None, sv) \<Rightarrow> Inr (1, length X_test))"

text \<open>
  Lines 698-705: the last batch is \<open>a[i * s :]\<close>, the others are
  \<open>a[i * s : (i + 1) * s]\<close>.
\<close>

definition batch_of :: "nat \<Rightarrow> nat \<Rightarrow> 'a list \<Rightarrow> nat \<Rightarrow> 'a list" where
  "batch_of n_batches s a i =
     (if i = n_batches - 1 then drop (i * s) a else take s (drop (i * s) a))"

text \<open>
  The local variables of the loop: the store, the list object \<open>updated_residuals\<close> is
  bound to, \<open>res_quantile\<close> and the three output lists.
\<close>

record loop_state =
  ls_heap :: heap
  ls_updated_residuals :: ref
  ls_res_quantile :: real
  ls_y_pred_list :: "real list"
  ls_y_pred_lower_list :: "real list"
  ls_y_pred_upper_list :: "real list"

text \<open>
  The prediction of a batch (lines 707-713): every bootstrap model predicts the batch, the
  out-of-bag matrix combines the predictions and \<open>agg_func_loo\<close> reduces them along
  axis 0.
\<close>

definition y_pred_of_batch ::
  "('p, 'x) base_predictor \<Rightarrow> 'p enbpi \<Rightarrow> 'p list \<Rightarrow> real list list \<Rightarrow> 'x list \<Rightarrow> real list" where
  "y_pred_of_batch A self boot_predictors oob_matrix X_batch =
     (let boot_preds = map (\<lambda>b. bp_predict A (boot_predictors ! b) X_batch) [0..<e_B self];
          loo_preds = compute_loo_predictions oob_matrix boot_preds
      in e_agg_func_loo self loo_preds)"

text \<open>
  One iteration of the loop (lines 696-729). An exception leaves the loop with the store
  as it is at that moment.
\<close>

definition batch_step ::
  "('p, 'x) base_predictor \<Rightarrow> scoring \<Rightarrow> 'p enbpi \<Rightarrow> 'p list \<Rightarrow> nat \<Rightarrow> nat
   \<Rightarrow> 'x list \<Rightarrow> real list option \<Rightarrow> real \<Rightarrow> nat \<Rightarrow> loop_state
   \<Rightarrow> error \<times> heap + loop_state" where
  "batch_step A S self boot_predictors n_batches s X_test y_true alpha i st =
     (let X_batch = batch_of n_batches s X_test i;
          y_true_batch = map_option (\<lambda>yt. batch_of n_batches s yt i) y_true
      in if \<not> e_B self \<le> length boot_predictors then Inl (IndexError, ls_heap st)
         else case e_oob_matrix self of
           None \<Rightarrow> Inl (AttributeError, ls_heap st)
         | Some oob_matrix \<Rightarrow>
             (let y_pred_batch = y_pred_of_batch A self boot_predictors oob_matrix X_batch;
                  pi = compute_pi S y_pred_batch (ls_res_quantile st);
                  st1 = st\<lparr>ls_y_pred_upper_list := ls_y_pred_upper_list st @ snd pi,
                            ls_y_pred_lower_list := ls_y_pred_lower_list st @ fst pi,
                            ls_y_pred_list := ls_y_pred_list st @ y_pred_batch\<rparr>
              in case y_true_batch of
                   None \<Rightarrow> Inr st1
                 | Some yb \<Rightarrow>
                     (let residuals = compute_residuals S y_pred_batch yb;
                          sliced = alloc (drop s (cells (ls_heap st) (ls_updated_residuals st)))
                                         (ls_heap st);
                          h2 = list_iadd (fst sliced) residuals (snd sliced)
                      in case np_quantile_linear (cells h2 (fst sliced)) (1 - alpha) of
                           Inl e \<Rightarrow> Inl (e, h2)
                         | Inr q \<Rightarrow>
                             Inr (st1\<lparr>ls_heap := h2, ls_updated_residuals := fst sliced,
                                       ls_res_quantile := q\<rparr>))))"

fun predict_loop ::
  "('p, 'x) base_predictor \<Rightarrow> scoring \<Rightarrow> 'p enbpi \<Rightarrow> 'p list \<Rightarrow> nat \<Rightarrow> nat
   \<Rightarrow> 'x list \<Rightarrow> real list option \<Rightarrow> real \<Rightarrow> nat list \<Rightarrow> loop_state
   \<Rightarrow> error \<times> heap + loop_state" where
  "predict_loop A S self boot_predictors n_batches s X_test y_true alpha [] st = Inr st"
| "predict_loop A S self boot_predictors n_batches s X_test y_true alpha (i # rest) st =
     (case batch_step A S self boot_predictors n_batches s X_test y_true alpha i st of
        Inl eh \<Rightarrow> Inl eh
      | Inr st' \<Rightarrow>
          predict_loop A S self boot_predictors n_batches s X_test y_true alpha rest st')"

text \<open>
  \<open>EnbPI.predict\<close> (lines 652-735) in the store \<open>h\<close>: the result is the exception raised
  or the triple \<open>(y_pred, y_pred_lower, y_pred_upper)\<close>, and the store the call leaves.
  The method has no assignment to an attribute of \<open>self\<close>, so the object itself is read
  only; what it could change is the list object \<open>self.residuals\<close> in the store.
\<close>

definition predict ::
  "('p, 'x) base_predictor \<Rightarrow> scoring \<Rightarrow> 'p enbpi \<Rightarrow> 'x list \<Rightarrow> real \<Rightarrow> real list option
   \<Rightarrow> int option \<Rightarrow> heap \<Rightarrow> (error + real list \<times> real list \<times> real list) \<times> heap" where
  "predict A S self X_test alpha y_true s h =
     (let copied = alloc (cells h (e_residuals self)) h;
          updated = alloc (cells (snd copied) (fst copied)) (snd copied);
          h2 = snd updated
      in case np_quantile_linear (cells h2 (e_residuals self)) (1 - alpha) of
           Inl e \<Rightarrow> (Inl e, h2)
         | Inr res_quantile \<Rightarrow>
             (case batch_plan X_test y_true s of
                Inl e \<Rightarrow> (Inl e, h2)
              | Inr (n_batches, s') \<Rightarrow>
                  (case e_boot_predictors self of
                     None \<Rightarrow> (Inl RuntimeError, h2)
                   | Some boot_predictors \<Rightarrow>
                       (case predict_loop A S self boot_predictors n_batches s' X_test y_true
                               alpha [0..<n_batches]
                               \<lparr>ls_heap = h2, ls_updated_residuals = fst updated,
                                ls_res_quantile = res_quantile, ls_y_pred_list = [],
                                ls_y_pred_lower_list = [], ls_y_pred_upper_list = []\<rparr> of
                          Inl (e, h') \<Rightarrow> (Inl e, h')
                        | Inr st \<Rightarrow>
                            (Inr (ls_y_pred_list st, ls_y_pred_lower_list st,
                                  ls_y_pred_upper_list st), ls_heap st)))))"

subsection \<open>Relations between stores and between loop states\<close>

text \<open>
  \<open>heap_extends h h'\<close>: the store \<open>h'\<close> has every list object of \<open>h\<close>, with the contents
  it has in \<open>h\<close>, and possibly new ones.
\<close>

definition heap_extends :: "heap \<Rightarrow> heap \<Rightarrow> bool" where
  "heap_extends h h' = (next_ref h \<le> next_ref h' \<and> (\<forall>r < next_ref h. cells h' r = cells h r))"

text \<open>
  Two states of the loop of \<open>predict\<close> that agree on everything the loop reads: the
  quantile, the output lists and the contents of \<open>updated_residuals\<close>; and two outcomes
  of the loop that raise the same exception or end in such states.
\<close>

definition same_locals :: "loop_state \<Rightarrow> loop_state \<Rightarrow> bool" where
  "same_locals st1 st2 =
     (ls_res_quantile st1 = ls_res_quantile st2
      \<and> ls_y_pred_list st1 = ls_y_pred_list st2
      \<and> ls_y_pred_lower_list st1 = ls_y_pred_lower_list st2
      \<and> ls_y_pred_upper_list st1 = ls_y_pred_upper_list st2
      \<and> cells (ls_heap st1) (ls_updated_residuals st1)
          = cells (ls_heap st2) (ls_updated_residuals st2))"

definition same_outcome :: "error \<times> heap + loop_state \<Rightarrow> error \<times> heap + loop_state \<Rightarrow> bool" where
  "same_outcome r1 r2 =
     (case r1 of
        Inl (e1, h1) \<Rightarrow> (case r2 of Inl (e2, h2) \<Rightarrow> e1 = e2 | Inr st2 \<Rightarrow> False)
      | Inr st1 \<Rightarrow> (case r2 of Inl (e2, h2) \<Rightarrow> False | Inr st2 \<Rightarrow> same_locals st1 st2))"

subsection \<open>The sliding window of residuals\<close>



section \<open>Evaluation of the floating-point operations\<close>

lemma pow2_powr: "pow2 e = 2 powr (real_of_int e)"
proof (cases "0 \<le> e")
  case True
  then show ?thesis
    using powr_realpow[of 2 "nat e"] by (simp add: pow2_def)
next
  case False
  then have m: "real_of_int e = - real (nat (- e))" by simp
  have "2 powr (- real (nat (- e))) = 1 / 2 ^ nat (- e)"
    using powr_realpow[of 2 "nat (- e)"] by (simp add: powr_minus divide_inverse)
  then show ?thesis using False unfolding m by (simp add: pow2_def)
qed

lemma floor_log2_eq:
  assumes "pow2 E \<le> x" and "x < pow2 (E + 1)"
  shows "\<lfloor>log 2 x\<rfloor> = E"
proof -
  have "0 < pow2 E" by (simp add: pow2_powr)
  then have x: "0 < x" using assms(1) by linarith
  have "2 powr (real_of_int E) \<le> x \<and> x < 2 powr (real_of_int E + 1)"
    using assms by (simp add: pow2_powr)
  then show ?thesis using floor_log_eq_powr_iff[of x 2 E] x by simp
qed

lemma round_double_eval:
  assumes "pow2 E \<le> \<bar>x\<bar>" and "\<bar>x\<bar> < pow2 (E + 1)"
    and "e = max (E - 52) (- 1074)"
    and "k = round_half_even (x / pow2 e)"
    and "\<bar>of_int k * pow2 e\<bar> < 2 ^ 1024"
  shows "round_double x = Fin (of_int k * pow2 e)"
proof -
  have "0 < pow2 E" by (simp add: pow2_powr)
  then have x: "x \<noteq> 0" using assms(1) by auto
  have l: "\<lfloor>log 2 \<bar>x\<bar>\<rfloor> = E" using assms(1,2) by (rule floor_log2_eq)
  show ?thesis
    using x assms(3,4,5) by (simp add: round_double_def l Let_def)
qed

lemma float_1e_6_value: "float_1e_6 = Fin (4722366482869645 / 2 ^ 72)"
  unfolding float_1e_6_def
  by (rule round_double_eval[where E = "- 20" and e = "- 72", THEN trans])
     (simp_all add: pow2_def round_half_even_def Let_def)

lemma float_1e_5_value: "float_1e_5 = Fin (5902958103587057 / 2 ^ 69)"
  unfolding float_1e_5_def
  by (rule round_double_eval[where E = "- 17" and e = "- 69", THEN trans])
     (simp_all add: pow2_def round_half_even_def Let_def)

lemma tolerance_value:
  "fadd float_1e_6 (fmul float_1e_5 (fabs (Fin 1))) = Fin (6493253913945763 / 2 ^ 69)"
proof -
  have m: "fmul float_1e_5 (fabs (Fin 1)) = Fin (5902958103587057 / 2 ^ 69)"
    unfolding float_1e_5_value fabs.simps fmul.simps
    by (rule round_double_eval[where E = "- 17" and e = "- 69", THEN trans])
       (simp_all add: pow2_def round_half_even_def Let_def)
  show ?thesis
    unfolding m float_1e_6_value fadd.simps
    by (rule round_double_eval[where E = "- 17" and e = "- 69", THEN trans])
       (simp_all add: pow2_def round_half_even_def Let_def)
qed

lemma isclose_one:
  "isclose (Fin s) (Fin 1) float_1e_6
     = fle (fabs (round_double (s - 1))) (Fin (6493253913945763 / 2 ^ 69))"
  using tolerance_value by (simp add: isclose_def fsub_def)

lemma isclose_not_finite:
  "\<not> isclose PInf (Fin 1) atol" "\<not> isclose NInf (Fin 1) atol" "\<not> isclose NaN (Fin 1) atol"
  by (simp_all add: isclose_def feq_def)

lemma round_double_pow2:
  assumes "- 1022 \<le> E" and "E \<le> 1023"
  shows "round_double (pow2 E) = Fin (pow2 E)" and "round_double (- pow2 E) = Fin (- pow2 E)"
proof -
  have pos: "0 < pow2 E" by (simp add: pow2_powr)
  have lt: "pow2 E < pow2 (E + 1)" by (simp add: pow2_powr)
  have e: "E - 52 = max (E - 52) (- 1074)" using assms by simp
  have split: "pow2 E = 2 ^ 52 * pow2 (E - 52)"
    by (simp add: pow2_powr powr_diff) 
  have q: "pow2 E / pow2 (E - 52) = 2 ^ 52"
    using split by (simp add: pow2_powr)
  have k: "(2 ^ 52 :: int) = round_half_even (pow2 E / pow2 (E - 52))"
    unfolding q by (simp add: round_half_even_def Let_def)
  have k': "(- (2 ^ 52) :: int) = round_half_even (- pow2 E / pow2 (E - 52))"
    using q by (simp add: round_half_even_def Let_def)
  have "2 powr real_of_int E \<le> 2 powr real_of_int 1023"
    using assms by (intro powr_mono) simp_all
  then have "pow2 E \<le> pow2 1023" unfolding pow2_powr .
  also have "\<dots> < 2 ^ 1024" by (simp add: pow2_def)
  finally have b: "pow2 E < 2 ^ 1024" .
  have v: "real_of_int (2 ^ 52) * pow2 (E - 52) = pow2 E" using split by simp
  have "round_double (pow2 E) = Fin (real_of_int (2 ^ 52) * pow2 (E - 52))"
    apply (rule round_double_eval[where E = E and e = "E - 52"])
    using pos lt e k b v by simp_all
  then show "round_double (pow2 E) = Fin (pow2 E)" unfolding v .
  have v': "real_of_int (- (2 ^ 52)) * pow2 (E - 52) = - pow2 E" using split by simp
  have "round_double (- pow2 E) = Fin (real_of_int (- (2 ^ 52)) * pow2 (E - 52))"
    apply (rule round_double_eval[where E = E and e = "E - 52"])
    using pos lt e k' b v' by simp_all
  then show "round_double (- pow2 E) = Fin (- pow2 E)" unfolding v' .
qed

section \<open>Properties of the weighted quantile\<close>

lemma length_cumsum_from: "length (cumsum_from acc xs) = length xs"
  by (induction xs arbitrary: acc) auto

lemma length_cumsum: "length (cumsum xs) = length xs"
  by (cases xs) (simp_all add: length_cumsum_from)

lemma length_argsort: "length (argsort a) = length a"
  by (simp add: argsort_def)


lemma cumsum_from_absorbed:
  assumes "fadd c d = c"
  shows "cumsum_from c (replicate n d) = replicate n c"
  using assms by (induction n) simp_all

lemma fadd_quarter_ulp:
  "fadd (Fin (1 - 1 / 2 ^ 52)) (Fin (1 / 2 ^ 55)) = Fin (1 - 1 / 2 ^ 52)"
  unfolding fadd.simps
  by (rule round_double_eval[where E = "- 1" and e = "- 53", THEN trans])
     (simp_all add: pow2_def round_half_even_def Let_def)

lemma argsort_one_to_nine:
  "argsort (map Fin [1, 2, 3, 4, 5, 6, 7, 8, 9]) = [0, 1, 2, 3, 4, 5, 6, 7, 8]"
  by (simp add: argsort_def upt_rec)

lemma filter_first:
  "filter P xs = x # rest \<Longrightarrow> \<exists>k < length xs. xs ! k = x \<and> P x \<and> (\<forall>j<k. \<not> P (xs ! j))"
proof (induction xs)
  case Nil
  then show ?case by simp
next
  case (Cons y ys)
  show ?case
  proof (cases "P y")
    case True
    with Cons.prems have "y = x" by simp
    with True have "(y # ys) ! 0 = x \<and> P x \<and> (\<forall>j<0. \<not> P ((y # ys) ! j))" by simp
    then show ?thesis by blast
  next
    case False
    with Cons.prems have "filter P ys = x # rest" by simp
    from Cons.IH[OF this] obtain k where k: "k < length ys" "ys ! k = x" "P x"
      "\<forall>j<k. \<not> P (ys ! j)" by blast
    have "\<forall>j<Suc k. \<not> P ((y # ys) ! j)"
    proof (intro allI impI)
      fix j assume "j < Suc k"
      then show "\<not> P ((y # ys) ! j)" using False k(4) by (cases j) auto
    qed
    moreover have "Suc k < length (y # ys)" using k(1) by simp
    moreover have "(y # ys) ! Suc k = x" using k(2) by simp
    ultimately show ?thesis using k(3) by blast
  qed
qed

lemma filter_zip_first:
  assumes len: "length ys = length xs"
    and fl: "filter P (zip xs ys) = (i, c) # rest"
  shows "\<exists>p < length xs. i = xs ! p \<and> c = ys ! p \<and> P (i, c) \<and> (\<forall>q<p. \<not> P (xs ! q, ys ! q))"
proof -
  from filter_first[OF fl] obtain k where k: "k < length (zip xs ys)"
    and zk: "zip xs ys ! k = (i, c)" and pc: "P (i, c)"
    and bef: "\<forall>j<k. \<not> P (zip xs ys ! j)" by blast
  have kl: "k < length xs" using k by simp
  have kl2: "k < length ys" using kl len by simp
  have zk': "zip xs ys ! k = (xs ! k, ys ! k)" using kl kl2 by (rule nth_zip)
  have ip: "i = xs ! k" using zk zk' by simp
  have cp: "c = ys ! k" using zk zk' by simp
  have before: "\<forall>q<k. \<not> P (xs ! q, ys ! q)"
  proof (intro allI impI)
    fix q assume q: "q < k"
    have q1: "q < length xs" using q kl by simp
    have q2: "q < length ys" using q kl2 by simp
    have e: "zip xs ys ! q = (xs ! q, ys ! q)" using q1 q2 by (rule nth_zip)
    have "\<not> P (zip xs ys ! q)" using bef q by blast
    then show "\<not> P (xs ! q, ys ! q)" unfolding e .
  qed
  show ?thesis using kl ip cp pc before by blast
qed

text \<open>
  When the weighted branch finds an index, it is the one at the first position of the
  sorted order at which the cumulative weight, as \<open>np.cumsum\<close> rounds it, reaches
  \<open>alpha\<close>.
\<close>

lemma weighted_quantile_first_crossing:
  assumes "weighted_quantile_idxs xs alpha ws = i # rest"
  shows "\<exists>p < length xs. i = argsort xs ! p
           \<and> fle alpha (cumsum (map ((!) ws) (argsort xs)) ! p)
           \<and> (\<forall>q<p. \<not> fle alpha (cumsum (map ((!) ws) (argsort xs)) ! q))"
proof -
  let ?idxs = "argsort xs"
  let ?cw = "cumsum (map ((!) ws) ?idxs)"
  let ?P = "\<lambda>(i, c). fle alpha c"
  have len: "length ?cw = length ?idxs" by (simp add: length_cumsum)
  from assms obtain x frest where fx: "filter ?P (zip ?idxs ?cw) = x # frest" and xi: "fst x = i"
    by (auto simp: weighted_quantile_idxs_def weighted_quantile_from_def)
  obtain i0 c0 where x: "x = (i0, c0)" by (cases x)
  have fl: "filter ?P (zip ?idxs ?cw) = (i, c0) # frest" using fx xi x by simp
  from filter_zip_first[where P = ?P, OF len fl] obtain p where
    p: "p < length ?idxs" "i = ?idxs ! p" "c0 = ?cw ! p" "?P (i, c0)"
       "\<forall>q<p. \<not> ?P (?idxs ! q, ?cw ! q)" by blast
  have a: "p < length xs" using p(1) by (simp add: length_argsort)
  have b: "fle alpha (?cw ! p)" using p(3,4) by simp
  have c: "\<forall>q<p. \<not> fle alpha (?cw ! q)" using p(5) by simp
  show ?thesis using a p(2) b c by blast
qed

text \<open>
  Claim C1 does not hold of the code. The weights \<open>1 - 2^-52\<close> and eight times
  \<open>2^-55\<close> are non-negative floats whose sum is exactly 1, and \<open>alpha = 1 - 2^-53\<close> is
  strictly between 0 and 1. Each addition of \<open>np.cumsum\<close> rounds back to \<open>1 - 2^-52\<close>, so
  no cumulative weight reaches \<open>alpha\<close> and the indexing \<open>[0]\<close> of line 56 raises
  IndexError where the claim promises an element of \<open>a\<close>. (This is the outcome whenever
  the result of \<open>np.sum\<close> passes the normalisation check, as the left-to-right sum
  \<open>1 - 2^-52\<close> and the pairwise sum \<open>1 - 2^-53\<close> both do; otherwise the check raises.)
\<close>

theorem quantile_normalized_weights_IndexError:
  "sum_list [1 - 1 / 2 ^ 52, 1 / 2 ^ 55, 1 / 2 ^ 55, 1 / 2 ^ 55, 1 / 2 ^ 55,
             1 / 2 ^ 55, 1 / 2 ^ 55, 1 / 2 ^ 55, 1 / 2 ^ 55] = (1 :: real)
   \<and> quantile N (Vector (map Fin [1, 2, 3, 4, 5, 6, 7, 8, 9])) (Fin (1 - 1 / 2 ^ 53))
        (Some (Vector (map Fin [1 - 1 / 2 ^ 52, 1 / 2 ^ 55, 1 / 2 ^ 55, 1 / 2 ^ 55, 1 / 2 ^ 55,
                                1 / 2 ^ 55, 1 / 2 ^ 55, 1 / 2 ^ 55, 1 / 2 ^ 55])))
     = (if isclose (np_sum N (map Fin [1 - 1 / 2 ^ 52, 1 / 2 ^ 55, 1 / 2 ^ 55, 1 / 2 ^ 55,
                                       1 / 2 ^ 55, 1 / 2 ^ 55, 1 / 2 ^ 55, 1 / 2 ^ 55,
                                       1 / 2 ^ 55])) (Fin 1) float_1e_6
        then Inl IndexError else Inl RuntimeError)
   \<and> isclose (Fin (1 - 1 / 2 ^ 52)) (Fin 1) float_1e_6
   \<and> isclose (Fin (1 - 1 / 2 ^ 53)) (Fin 1) float_1e_6"
proof (intro conjI)
  let ?c = "Fin (1 - 1 / 2 ^ 52)"
  let ?d = "Fin (1 / 2 ^ 55)"
  let ?w = "[?c, ?d, ?d, ?d, ?d, ?d, ?d, ?d, ?d]"
  let ?a = "map Fin [1, 2, 3, 4, 5, 6, 7, 8, 9]"
  show "sum_list [1 - 1 / 2 ^ 52, 1 / 2 ^ 55, 1 / 2 ^ 55, 1 / 2 ^ 55, 1 / 2 ^ 55,
             1 / 2 ^ 55, 1 / 2 ^ 55, 1 / 2 ^ 55, 1 / 2 ^ 55] = (1 :: real)"
    by simp
  have sw: "map (\<lambda>i. ?w ! i) [0, 1, 2, 3, 4, 5, 6, 7, 8] = ?w"
    by (simp add: numeral_eq_Suc)
  have cs: "cumsum ?w = [?c, ?c, ?c, ?c, ?c, ?c, ?c, ?c, ?c]"
    unfolding cumsum.simps cumsum_from.simps fadd_quarter_ulp ..
  have idx: "weighted_quantile_idxs ?a (Fin (1 - 1 / 2 ^ 53)) ?w = []"
    unfolding weighted_quantile_idxs_def weighted_quantile_from_def argsort_one_to_nine
      sw cs Let_def
    by simp
  have mw: "map Fin [1 - 1 / 2 ^ 52, 1 / 2 ^ 55, 1 / 2 ^ 55, 1 / 2 ^ 55, 1 / 2 ^ 55,
                     1 / 2 ^ 55, 1 / 2 ^ 55, 1 / 2 ^ 55, 1 / 2 ^ 55] = ?w" by simp
  show "quantile N (Vector ?a) (Fin (1 - 1 / 2 ^ 53))
        (Some (Vector (map Fin [1 - 1 / 2 ^ 52, 1 / 2 ^ 55, 1 / 2 ^ 55, 1 / 2 ^ 55, 1 / 2 ^ 55,
                                1 / 2 ^ 55, 1 / 2 ^ 55, 1 / 2 ^ 55, 1 / 2 ^ 55])))
     = (if isclose (np_sum N (map Fin [1 - 1 / 2 ^ 52, 1 / 2 ^ 55, 1 / 2 ^ 55, 1 / 2 ^ 55,
                                       1 / 2 ^ 55, 1 / 2 ^ 55, 1 / 2 ^ 55, 1 / 2 ^ 55,
                                       1 / 2 ^ 55])) (Fin 1) float_1e_6
        then Inl IndexError else Inl RuntimeError)"
    using idx by (simp add: quantile_def)
  have r52: "round_double (- (1 / 2 ^ 52)) = Fin (- (1 / 2 ^ 52))"
    using round_double_pow2(2)[of "- 52"] by (simp add: pow2_def)
  have r53: "round_double (- (1 / 2 ^ 53)) = Fin (- (1 / 2 ^ 53))"
    using round_double_pow2(2)[of "- 53"] by (simp add: pow2_def)
  show "isclose (Fin (1 - 1 / 2 ^ 52)) (Fin 1) float_1e_6"
    unfolding isclose_one using r52 by simp
  show "isclose (Fin (1 - 1 / 2 ^ 53)) (Fin 1) float_1e_6"
    unfolding isclose_one using r53 by simp
qed





section \<open>Properties of ConformalPredictor and CrossValCpAggregator\<close>

text \<open>
  Claim C3, on a ConformalPredictor on which \<open>fit\<close> has not been called: \<open>predict\<close>
  raises the "not fitted" RuntimeError, but \<open>get_residuals\<close> and \<open>get_weights\<close> return
  normally, handing the RuntimeError instance back as an ordinary value (lines 46 and 51
  say \<open>return\<close> where line 123 says \<open>raise\<close>).
\<close>

theorem accessors_before_fit:
  "get_residuals C (ConformalPredictor_init calibrator predictor splitter method train)
     = Inr (ExceptionInstance RuntimeError)
   \<and> get_weights C (ConformalPredictor_init calibrator predictor splitter method train)
     = Inr (ExceptionInstance RuntimeError)
   \<and> cp_predict P C cvplus (ConformalPredictor_init calibrator predictor splitter method train)
        X alpha = Inl RuntimeError"
  by (simp add: get_residuals_def get_weights_def cp_predict_def ConformalPredictor_init_def)

text \<open>
  Claim C4 at the method \<open>"cv"\<close>, which is not \<open>"cv+"\<close>: the constructor does not
  raise, it builds the aggregator and stores the method.
\<close>

theorem CrossValCpAggregator_init_cv:
  "CrossValCpAggregator_init k ''cv''
     = Inr \<lparr>agg_K = k, agg_predictors = [], agg_calibrators = [], agg_method = ''cv''\<rparr>"
  by (simp add: CrossValCpAggregator_init_def)

lemma take3: "take n [a, b, c] = m \<Longrightarrow> m \<in> {[], [a], [a, b], [a, b, c]}"
  by (cases n; cases "n - 1"; cases "n - 2") auto

lemma str_in_cvplus:
  "str_in m ''cv+'' \<longleftrightarrow> m \<in> {'''', ''c'', ''v'', ''+'', ''cv'', ''v+'', ''cv+''}"
proof
  assume "str_in m ''cv+''"
  then consider "take (length m) ''cv+'' = m" | "take (length m) ''v+'' = m"
    | "take (length m) ''+'' = m" | "m = []" by auto
  then show "m \<in> {'''', ''c'', ''v'', ''+'', ''cv'', ''v+'', ''cv+''}"
  proof cases
    case 1
    then show ?thesis using take3[of "length m" "CHR ''c''" "CHR ''v''" "CHR ''+''" m] by auto
  next
    case 2
    then have "take (length m) [CHR ''v'', CHR ''+''] = m" by simp
    then show ?thesis by (cases "length m"; cases "length m - 1") auto
  next
    case 3
    then show ?thesis by (cases "length m") auto
  next
    case 4
    then show ?thesis by simp
  qed
next
  assume "m \<in> {'''', ''c'', ''v'', ''+'', ''cv'', ''v+'', ''cv+''}"
  then show "str_in m ''cv+''" by auto
qed

text \<open>
  The constructor returns exactly for the seven substrings of \<open>"cv+"\<close>; for every other
  method it raises (the TypeError of calling \<open>NotImplemented\<close>).
\<close>

theorem CrossValCpAggregator_init_accepts:
  "(\<exists>agg :: ('p, 'c) aggregator. CrossValCpAggregator_init k m = Inr agg)
     \<longleftrightarrow> m \<in> {'''', ''c'', ''v'', ''+'', ''cv'', ''v+'', ''cv+''}"
  unfolding str_in_cvplus[symmetric] by (simp add: CrossValCpAggregator_init_def)

text \<open>
  Claim C5. On an aggregator with method \<open>"cv+"\<close> whose predictors and calibrators have
  the same keys: when it holds exactly one fold, \<open>predict\<close> returns that fold's
  prediction calibrated by that fold's calibrator, \<open>(y_pred, y_lo, y_hi, var_pred)\<close>;
  when it holds more than one fold it returns \<open>(None, y_lo, y_hi, None)\<close> with the
  bounds the CvPlusCalibrator computes from all folds.
\<close>

theorem agg_predict_dispatch:
  assumes keys: "set (dict_keys (agg_predictors agg)) = set (dict_keys (agg_calibrators agg))"
    and m: "agg_method agg = ''cv+''"
  shows "(\<forall>k predictor c y_pred y_pred_lo y_pred_hi var_pred y_lo y_hi.
            agg_predictors agg = [(k, predictor)]
            \<and> map_of (agg_calibrators agg) k = Some (Some c)
            \<and> p_predict P predictor X = Inr (y_pred, y_pred_lo, y_pred_hi, var_pred)
            \<and> c_calibrate C c X alpha y_pred var_pred y_pred_lo y_pred_hi = Inr (y_lo, y_hi)
            \<longrightarrow> agg_predict P C cvplus agg X alpha = Inr (Some y_pred, y_lo, y_hi, var_pred))
       \<and> (\<forall>y_lo y_hi.
            1 < length (agg_predictors agg)
            \<and> cvplus (agg_calibrators agg) X (agg_predictors agg) alpha = Inr (y_lo, y_hi)
            \<longrightarrow> agg_predict P C cvplus agg X alpha = Inr (None, y_lo, y_hi, None))"
proof (intro conjI allI impI)
  fix k predictor c y_pred y_pred_lo y_pred_hi var_pred y_lo y_hi
  assume h: "agg_predictors agg = [(k, predictor)]
            \<and> map_of (agg_calibrators agg) k = Some (Some c)
            \<and> p_predict P predictor X = Inr (y_pred, y_pred_lo, y_pred_hi, var_pred)
            \<and> c_calibrate C c X alpha y_pred var_pred y_pred_lo y_pred_hi = Inr (y_lo, y_hi)"
  have "set (dict_keys (agg_calibrators agg)) = {k}" using keys h by (simp add: dict_keys_def)
  then show "agg_predict P C cvplus agg X alpha = Inr (Some y_pred, y_lo, y_hi, var_pred)"
    using h by (simp add: agg_predict_def dict_keys_def)
next
  fix y_lo y_hi
  assume h: "1 < length (agg_predictors agg)
            \<and> cvplus (agg_calibrators agg) X (agg_predictors agg) alpha = Inr (y_lo, y_hi)"
  then show "agg_predict P C cvplus agg X alpha = Inr (None, y_lo, y_hi, None)"
    using keys m by (simp add: agg_predict_def dict_keys_def)
qed


theorem agg_predict_dispatch_witness:
  "agg_predict
     \<lparr>p_fit = \<lambda>p X y. Inr p, p_predict = \<lambda>p X. Inr (p, None, None, None),
      p_is_trained = \<lambda>p. True\<rparr>
     \<lparr>c_fit = \<lambda>c yt yp X v lo hi. Inr c,
      c_calibrate = \<lambda>c X alpha yp v lo hi. Inr (yp - c, yp + c),
      c_residuals = \<lambda>c. c, c_get_weights = \<lambda>c. Inr c\<rparr>
     (\<lambda>cs X ps alpha. Inr (0, 10))
     \<lparr>agg_K = 1, agg_predictors = [(0, 5 :: int)], agg_calibrators = [(0, Some (2 :: int))],
      agg_method = ''cv+''\<rparr> () (1/10)
   = Inr (Some 5, 3, 7, None)
   \<and> agg_predict
     \<lparr>p_fit = \<lambda>p X y. Inr p, p_predict = \<lambda>p X. Inr (p, None, None, None),
      p_is_trained = \<lambda>p. True\<rparr>
     \<lparr>c_fit = \<lambda>c yt yp X v lo hi. Inr c,
      c_calibrate = \<lambda>c X alpha yp v lo hi. Inr (yp - c, yp + c),
      c_residuals = \<lambda>c. c, c_get_weights = \<lambda>c. Inr c\<rparr>
     (\<lambda>cs X ps alpha. Inr (0, 10))
     \<lparr>agg_K = 2, agg_predictors = [(0, 5 :: int), (1, 6)],
      agg_calibrators = [(0, Some (2 :: int)), (1, Some 3)],
      agg_method = ''cv+''\<rparr> () (1/10)
   = Inr (None, 0, 10, None)"
proof -
  let ?P = "\<lparr>p_fit = \<lambda>(p :: int) (X :: unit) (y :: int). Inr p,
             p_predict = \<lambda>p X. Inr (p, None, None, None), p_is_trained = \<lambda>p. True\<rparr>"
  let ?C = "\<lparr>c_fit = \<lambda>(c :: int) (yt :: int) (yp :: int) (X :: unit) v lo hi. Inr c,
             c_calibrate = \<lambda>c X alpha yp v lo hi. Inr (yp - c, yp + c),
             c_residuals = \<lambda>c. c, c_get_weights = \<lambda>c. Inr c\<rparr>"
  let ?cv = "\<lambda>(cs :: (nat, int option) dict) (X :: unit) (ps :: (nat, int) dict) (alpha :: real).
               Inr (0 :: int, 10 :: int) :: error + int \<times> int"
  let ?a1 = "\<lparr>agg_K = 1, agg_predictors = [(0, 5 :: int)],
              agg_calibrators = [(0, Some (2 :: int))], agg_method = ''cv+''\<rparr>"
  let ?a2 = "\<lparr>agg_K = 2, agg_predictors = [(0, 5 :: int), (1, 6)],
              agg_calibrators = [(0, Some (2 :: int)), (1, Some 3)], agg_method = ''cv+''\<rparr>"
  have k1: "set (dict_keys (agg_predictors ?a1)) = set (dict_keys (agg_calibrators ?a1))"
    by (simp add: dict_keys_def)
  have k2: "set (dict_keys (agg_predictors ?a2)) = set (dict_keys (agg_calibrators ?a2))"
    by (simp add: dict_keys_def)
  have m1: "agg_method ?a1 = ''cv+''" and m2: "agg_method ?a2 = ''cv+''" by simp_all
  have "agg_predict ?P ?C ?cv ?a1 () (1/10) = Inr (Some 5, 3, 7, None)"
    using agg_predict_dispatch[OF k1 m1, of ?P "()" ?C "1/10" ?cv] by simp
  moreover have "agg_predict ?P ?C ?cv ?a2 () (1/10) = Inr (None, 0, 10, None)"
    using agg_predict_dispatch[OF k2 m2, of ?P "()" ?C "1/10" ?cv] by simp
  ultimately show ?thesis by simp
qed

lemma dict_keys_dict_set: "set (dict_keys (dict_set k v d)) = insert k (set (dict_keys d))"
proof (induction d)
  case Nil
  then show ?case by (simp add: dict_keys_def)
next
  case (Cons kv d)
  obtain k' v' where kv: "kv = (k', v')" by (cases kv)
  show ?case
  proof (cases "k' = k")
    case True
    then show ?thesis using kv by (simp add: dict_keys_def)
  next
    case False
    have "set (map fst (dict_set k v d)) = insert k (set (map fst d))"
      using Cons.IH by (simp add: dict_keys_def)
    then show ?thesis using kv False by (simp add: dict_keys_def insert_commute)
  qed
qed

lemma fit_folds_keys:
  assumes "fit_folds P C tr i splits p c agg = (None, agg')"
  shows "set (dict_keys (agg_predictors agg'))
           = set (dict_keys (agg_predictors agg)) \<union> {i..<i + length splits}
       \<and> set (dict_keys (agg_calibrators agg'))
           = set (dict_keys (agg_calibrators agg)) \<union> {i..<i + length splits}
       \<and> agg_method agg' = agg_method agg"
  using assms
proof (induction splits arbitrary: i p c agg)
  case Nil
  then show ?case by simp
next
  case (Cons sp splits)
  obtain X_fit y_fit X_calib y_calib where sp: "sp = (X_fit, y_fit, X_calib, y_calib)"
    by (cases sp)
  from Cons.prems sp obtain p' c' where
    rec: "fit_folds P C tr (Suc i) splits p' c'
            (append_calibrator i c' (append_predictor i p' agg)) = (None, agg')"
    by (auto split: sum.splits if_splits option.splits prod.splits)
  let ?agg1 = "append_calibrator i c' (append_predictor i p' agg)"
  have k1: "set (dict_keys (agg_predictors ?agg1)) = insert i (set (dict_keys (agg_predictors agg)))"
    by (simp add: append_calibrator_def append_predictor_def dict_keys_dict_set)
  have k2: "set (dict_keys (agg_calibrators ?agg1)) = insert i (set (dict_keys (agg_calibrators agg)))"
    by (simp add: append_calibrator_def append_predictor_def dict_keys_dict_set)
  have m: "agg_method ?agg1 = agg_method agg"
    by (simp add: append_calibrator_def append_predictor_def)
  have u: "insert i A \<union> {Suc i..<Suc i + length splits} = A \<union> {i..<i + length (sp # splits)}"
    for A :: "nat set" by auto
  from Cons.IH[OF rec] show ?case unfolding k1 k2 m u by simp
qed

text \<open>
  When \<open>ConformalPredictor.fit\<close> returns normally, the aggregator it leaves holds one
  predictor and one calibrator per fold, under the same keys \<open>0, ..., K - 1\<close>: the
  assertion of \<open>CrossValCpAggregator.predict\<close> holds on a fitted object.
\<close>

theorem cp_fit_keys:
  assumes "cp_fit P C self X y = (None, self')"
  shows "\<exists>agg. cp_cv_cp_agg self' = Some agg
           \<and> set (dict_keys (agg_predictors agg)) = {0..<length (cp_splitter self X y)}
           \<and> set (dict_keys (agg_calibrators agg)) = {0..<length (cp_splitter self X y)}
           \<and> agg_method agg = cp_method self"
proof -
  let ?splits = "cp_splitter self X y"
  from assms obtain agg0 :: "('a, 'b) aggregator" where
    i: "CrossValCpAggregator_init (int (length ?splits)) (cp_method self) = Inr agg0"
    by (auto simp: cp_fit_def Let_def split: sum.splits)
  have a0: "agg_predictors agg0 = []" "agg_calibrators agg0 = []" "agg_method agg0 = cp_method self"
    using i by (auto simp: CrossValCpAggregator_init_def split: if_splits)
  from assms i obtain agg' where
    f: "fit_folds P C (cp_train self) 0 ?splits (cp_predictor self) (cp_calibrator self) agg0
          = (None, agg')"
    and s: "self' = self\<lparr>cp_cv_cp_agg := Some agg'\<rparr>"
    by (auto simp: cp_fit_def Let_def split: if_splits prod.splits)
  from fit_folds_keys[OF f] a0 s show ?thesis by (simp add: dict_keys_def)
qed

section \<open>Properties of EnbPI.fit\<close>

lemmas sample_until_oob_induct =
  sample_until_oob.raw_induct[rotated 1, consumes 1, case_names step]

lemma sample_until_oob_sound:
  assumes "sample_until_oob R rs T g = Some y"
  shows "snd (fst y) = setdiff1d [0..<T] (fst (fst y)) \<and> snd (fst y) \<noteq> []
         \<and> (\<exists>g0. fst (fst y) = fst (resample R rs T g0))"
  using assms
proof (induction rule: sample_until_oob_induct)
  case (step f R rs T g y)
  obtain boot g1 where r: "resample R rs T g = (boot, g1)" by (cases "resample R rs T g")
  show ?case
  proof (cases "setdiff1d [0..<T] boot = []")
    case True
    with step.hyps r have "f R rs T g1 = Some y" by (simp add: Let_def)
    then show ?thesis by (rule step.IH)
  next
    case False
    with step.hyps r have "y = ((boot, setdiff1d [0..<T] boot), g1)" by (simp add: Let_def)
    moreover have "boot = fst (resample R rs T g)" using r by simp
    ultimately show ?thesis using False by auto
  qed
qed

lemma seeded_never_returns:
  assumes "sample_until_oob R rs T g = Some y"
    and "rs = Some seed"
    and "setdiff1d [0..<T] (fst (rng_draw R (rng_seeded R seed) T)) = []"
  shows False
  using assms
proof (induction rule: sample_until_oob_induct)
  case (step f R rs T g y)
  have r: "resample R rs T g = (fst (rng_draw R (rng_seeded R seed) T), g)"
    using step.prems by (simp add: resample_def)
  with step.hyps step.prems have "f R rs T g = Some y" by (simp add: Let_def)
  then show ?case using step.prems by (rule step.IH)
qed

lemma every_draw_covers_never_returns:
  assumes "sample_until_oob R rs T g = Some y"
    and "\<forall>g0. setdiff1d [0..<T] (fst (rng_draw R g0 T)) = []"
  shows False
  using assms
proof (induction rule: sample_until_oob_induct)
  case (step f R rs T g y)
  obtain boot g1 where r: "resample R rs T g = (boot, g1)" by (cases "resample R rs T g")
  have "\<exists>g0. boot = fst (rng_draw R g0 T)"
  proof (cases rs)
    case None
    then have "boot = fst (rng_draw R g T)" using r by (simp add: resample_def)
    then show ?thesis by blast
  next
    case (Some sd)
    then have "boot = fst (rng_draw R (rng_seeded R sd) T)" using r by (simp add: resample_def)
    then show ?thesis by blast
  qed
  then have "setdiff1d [0..<T] boot = []" using step.prems by auto
  with step.hyps r have "f R rs T g1 = Some y" by (simp add: Let_def)
  then show ?case using step.prems by (rule step.IH)
qed

lemma sample_bootstraps_seeded_None:
  assumes "b \<in> set bs"
    and "setdiff1d [0..<T] (fst (rng_draw R (rng_seeded R (seed + int b)) T)) = []"
  shows "sample_bootstraps R (Some seed) T bs g = None"
  using assms
proof (induction bs arbitrary: g)
  case Nil
  then show ?case by simp
next
  case (Cons a bs)
  show ?case
  proof (cases "sample_until_oob R (Some (seed + int a)) T g")
    case None
    then show ?thesis by simp
  next
    case (Some y)
    obtain sample g1 where y: "y = (sample, g1)" by (cases y)
    have "a \<noteq> b"
    proof
      assume "a = b"
      with Some Cons.prems show False
        using seeded_never_returns[of R "Some (seed + int b)" T g y "seed + int b"] by simp
    qed
    then have "b \<in> set bs" using Cons.prems by simp
    then have "sample_bootstraps R (Some seed) T bs g1 = None"
      using Cons.prems by (intro Cons.IH) auto
    then show ?thesis using Some y by simp
  qed
qed

lemma sample_bootstraps_covering_None:
  assumes "bs \<noteq> []"
    and "\<forall>g0. setdiff1d [0..<T] (fst (rng_draw R g0 T)) = []"
  shows "sample_bootstraps R rs T bs g = None"
proof (cases bs)
  case Nil
  then show ?thesis using assms by simp
next
  case (Cons a rest)
  have "sample_until_oob R (map_option (\<lambda>r. r + int a) rs) T g = None"
  proof (cases "sample_until_oob R (map_option (\<lambda>r. r + int a) rs) T g")
    case None
    then show ?thesis .
  next
    case (Some y)
    then show ?thesis using every_draw_covers_never_returns[OF Some assms(2)] by simp
  qed
  then show ?thesis using Cons by simp
qed

lemma one_sample_draw_covers:
  assumes "rng_ok R 1"
  shows "setdiff1d [0..<1] (fst (rng_draw R g0 1)) = []"
proof -
  have l: "length (fst (rng_draw R g0 1)) = 1" and b: "\<forall>i \<in> set (fst (rng_draw R g0 1)). i < 1"
    using assms by (auto simp: rng_ok_def)
  from l obtain x where x: "fst (rng_draw R g0 1) = [x]"
    by (cases "fst (rng_draw R g0 1)") auto
  with b have "x = 0" by simp
  with x show ?thesis by (simp add: setdiff1d_def)
qed

text \<open>
  Claim C7 fails on the code: the retry of line 592 passes the same \<open>random_state_b\<close>
  again, so with a base seed every retry repeats the draw that failed. When the draw of
  seed \<open>random_state + b\<close> covers all the training indices, for some \<open>b < B\<close>, \<open>fit\<close>
  does not return. On a training set of one sample every draw covers it, so \<open>fit\<close> does
  not return there either, with or without a seed.
\<close>

theorem fit_sampling_never_returns:
  "(e_random_state self = Some seed \<and> b < e_B self
      \<and> setdiff1d [0..<length X_train]
           (fst (rng_draw R (rng_seeded R (seed + int b)) (length X_train))) = []
      \<longrightarrow> fit A S R self X_train y_train h g = None)
   \<and> (length X_train = 1 \<and> 0 < e_B self \<and> rng_ok R 1
      \<longrightarrow> fit A S R self X_train y_train h g = None)"
proof (intro conjI impI)
  assume a: "e_random_state self = Some seed \<and> b < e_B self
      \<and> setdiff1d [0..<length X_train]
           (fst (rng_draw R (rng_seeded R (seed + int b)) (length X_train))) = []"
  then have "b \<in> set [0..<e_B self]" by simp
  then have "sample_bootstraps R (Some seed) (length X_train) [0..<e_B self] g = None"
    using a by (intro sample_bootstraps_seeded_None) auto
  then show "fit A S R self X_train y_train h g = None"
    using a by (simp add: fit_def)
next
  assume a: "length X_train = 1 \<and> 0 < e_B self \<and> rng_ok R 1"
  then have ne: "[0..<e_B self] \<noteq> []" by simp
  have cov: "\<forall>g0. setdiff1d [0..<1] (fst (rng_draw R g0 1)) = []"
  proof
    fix g0
    have "rng_ok R 1" using a by blast
    then show "setdiff1d [0..<1] (fst (rng_draw R g0 1)) = []" by (rule one_sample_draw_covers)
  qed
  have "sample_bootstraps R (e_random_state self) 1 [0..<e_B self] g = None"
    using ne cov by (rule sample_bootstraps_covering_None)
  then show "fit A S R self X_train y_train h g = None"
    using a by (simp add: fit_def)
qed

theorem fit_sampling_never_returns_witness:
  "fit \<lparr>bp_copy = \<lambda>p. p, bp_fit = \<lambda>p X y. p, bp_predict = \<lambda>p X. map (\<lambda>x. 0) X\<rparr>
       \<lparr>mad = \<lambda>p t. map2 (\<lambda>a b. \<bar>a - b\<bar>) p t,
        constant_interval = \<lambda>p w. (map (\<lambda>v. v - w) p, map (\<lambda>v. v + w) p)\<rparr>
       \<lparr>rng_draw = \<lambda>g T. (if g = 0 then [0..<T] else replicate T 0, Suc g), rng_seeded = nat\<rparr>
       \<lparr>e_predictor = (), e_B = 1, e_agg_func_loo = \<lambda>M. [], e_residuals = 0,
        e_boot_predictors = None, e_random_state = Some 0, e_oob_dict = [], e_boot_dict = [],
        e_oob_matrix = None\<rparr>
       [(), ()] [0, 0] \<lparr>cells = \<lambda>r. [], next_ref = 1\<rparr> (5 :: nat) = None
   \<and> fit \<lparr>bp_copy = \<lambda>p. p, bp_fit = \<lambda>p X y. p, bp_predict = \<lambda>p X. map (\<lambda>x. 0) X\<rparr>
       \<lparr>mad = \<lambda>p t. map2 (\<lambda>a b. \<bar>a - b\<bar>) p t,
        constant_interval = \<lambda>p w. (map (\<lambda>v. v - w) p, map (\<lambda>v. v + w) p)\<rparr>
       \<lparr>rng_draw = \<lambda>g T. (replicate T 0, Suc g), rng_seeded = nat\<rparr>
       \<lparr>e_predictor = (), e_B = 1, e_agg_func_loo = \<lambda>M. [], e_residuals = 0,
        e_boot_predictors = None, e_random_state = None, e_oob_dict = [], e_boot_dict = [],
        e_oob_matrix = None\<rparr>
       [()] [0] \<lparr>cells = \<lambda>r. [], next_ref = 1\<rparr> (5 :: nat) = None"
proof -
  let ?A = "\<lparr>bp_copy = \<lambda>p :: unit. p, bp_fit = \<lambda>p (X :: unit list) (y :: real list). p,
             bp_predict = \<lambda>p X. map (\<lambda>x. 0 :: real) X\<rparr>"
  let ?S = "\<lparr>mad = \<lambda>p t. map2 (\<lambda>a b :: real. \<bar>a - b\<bar>) p t,
             constant_interval = \<lambda>p (w :: real). (map (\<lambda>v. v - w) p, map (\<lambda>v. v + w) p)\<rparr>"
  let ?R1 = "\<lparr>rng_draw = \<lambda>(g :: nat) T. (if g = 0 then [0..<T] else replicate T 0, Suc g),
              rng_seeded = nat\<rparr>"
  let ?R2 = "\<lparr>rng_draw = \<lambda>(g :: nat) T. (replicate T (0 :: nat), Suc g), rng_seeded = nat\<rparr>"
  let ?self1 = "\<lparr>e_predictor = (), e_B = 1, e_agg_func_loo = \<lambda>M :: real list list. [] :: real list,
        e_residuals = 0, e_boot_predictors = None, e_random_state = Some 0, e_oob_dict = [],
        e_boot_dict = [], e_oob_matrix = None\<rparr>"
  let ?self2 = "\<lparr>e_predictor = (), e_B = 1, e_agg_func_loo = \<lambda>M :: real list list. [] :: real list,
        e_residuals = 0, e_boot_predictors = None, e_random_state = None, e_oob_dict = [],
        e_boot_dict = [], e_oob_matrix = None\<rparr>"
  let ?h = "\<lparr>cells = \<lambda>r. [], next_ref = 1\<rparr>"
  have c: "setdiff1d [0..<length [(), ()]]
             (fst (rng_draw ?R1 (rng_seeded ?R1 (0 + int 0)) (length [(), ()]))) = []"
    by (simp add: setdiff1d_def upt_rec)
  have ok: "rng_ok ?R2 1" by (simp add: rng_ok_def)
  have "fit ?A ?S ?R1 ?self1 [(), ()] [0, 0] ?h 5 = None"
    using fit_sampling_never_returns[of ?self1 0 0 "[(), ()]" ?R1 ?A ?S "[0, 0]" ?h 5] c by simp
  moreover have "fit ?A ?S ?R2 ?self2 [()] [0] ?h 5 = None"
    using fit_sampling_never_returns[of ?self2 0 0 "[()]" ?R2 ?A ?S "[0]" ?h 5] ok by simp
  ultimately show ?thesis by simp
qed

lemma resample_draw: "\<exists>g0. fst (resample R rs T g) = fst (rng_draw R g0 T)"
proof (cases rs)
  case None
  then have "fst (resample R rs T g) = fst (rng_draw R g T)" by (simp add: resample_def)
  then show ?thesis by blast
next
  case (Some sd)
  then have "fst (resample R rs T g) = fst (rng_draw R (rng_seeded R sd) T)"
    by (simp add: resample_def)
  then show ?thesis by blast
qed

lemma sample_until_oob_ok:
  assumes "sample_until_oob R rs T g = Some (sample, g')"
  shows "sample_ok R T sample"
proof -
  from sample_until_oob_sound[OF assms] obtain g0 where
    a: "snd sample = setdiff1d [0..<T] (fst sample)" and b: "fst sample = fst (resample R rs T g0)"
    by auto
  from resample_draw[of R rs T g0] b have "\<exists>g1. fst sample = fst (rng_draw R g1 T)" by simp
  with a show ?thesis by (simp add: sample_ok_def)
qed

lemma sample_bootstraps_ok:
  assumes "sample_bootstraps R rs T bs g = Some (samples, g')"
  shows "length samples = length bs \<and> (\<forall>sample \<in> set samples. sample_ok R T sample)"
  using assms
proof (induction bs arbitrary: g samples g')
  case Nil
  then show ?case by simp
next
  case (Cons b bs)
  from Cons.prems obtain sample g1 where
    s1: "sample_until_oob R (map_option (\<lambda>r. r + int b) rs) T g = Some (sample, g1)"
    by (auto split: option.splits)
  from Cons.prems s1 obtain rest g2 where
    s2: "sample_bootstraps R rs T bs g1 = Some (rest, g2)" and e: "samples = sample # rest"
    by (auto split: option.splits)
  from Cons.IH[OF s2] sample_until_oob_ok[OF s1] e show ?case by simp
qed

lemma setdiff1d_upt: "i \<in> set (setdiff1d [0..<T] boot) \<longleftrightarrow> i < T \<and> i \<notin> set boot"
  by (auto simp: setdiff1d_def)

lemma sum_list_indicator_zero:
  "sum_list (map (\<lambda>b. if P b then 1 else 0 :: real) bs) = 0 \<longleftrightarrow> (\<forall>b \<in> set bs. \<not> P b)"
proof (induction bs)
  case Nil
  then show ?case by simp
next
  case (Cons a bs)
  have nn: "0 \<le> sum_list (map (\<lambda>b. if P b then 1 else 0 :: real) bs)"
    by (rule sum_list_nonneg) auto
  show ?case using Cons nn by auto
qed

lemma oobs_for_unit_zero:
  "sum_list (oobs_for_unit B oob_dict i) = 0 \<longleftrightarrow> (\<forall>b<B. i \<notin> set (oob_dict ! b))"
  unfolding oobs_for_unit_def sum_list_indicator_zero by auto

lemma build_oob_matrix_Inl:
  "(\<exists>e. build_oob_matrix B oob_dict is = Inl e)
     \<longleftrightarrow> (\<exists>i \<in> set is. sum_list (oobs_for_unit B oob_dict i) = 0)"
  by (induction "is") (auto split: sum.splits)

lemma build_oob_matrix_error:
  "build_oob_matrix B oob_dict is = Inl e \<Longrightarrow> e = RuntimeError"
  by (induction "is") (auto split: sum.splits if_splits)

lemma build_oob_matrix_Inr:
  "build_oob_matrix B oob_dict is = Inr rows \<Longrightarrow>
     rows = map (oobs_for_unit B oob_dict) is
     \<and> (\<forall>i \<in> set is. sum_list (oobs_for_unit B oob_dict i) \<noteq> 0)"
  by (induction "is" arbitrary: rows) (auto split: sum.splits if_splits)

lemma sum_list_divide:
  fixes row :: "real list"
  shows "sum_list (map (\<lambda>v. v / c) row) = sum_list row / c"
  by (induction row) (auto simp: add_divide_distrib)

lemma normalize_rows_sum:
  assumes "row \<in> set (normalize_rows M)" and "\<forall>r \<in> set M. sum_list r \<noteq> 0"
  shows "sum_list row = 1"
proof -
  from assms(1) obtain r where r: "r \<in> set M" and e: "row = map (\<lambda>v. v / sum_list r) r"
    by (auto simp: normalize_rows_def)
  have "sum_list r \<noteq> 0" using assms(2) r by blast
  then show ?thesis unfolding e sum_list_divide by simp
qed

lemma fit_boot_predictors_Inr:
  assumes "\<forall>boot \<in> set boots. \<forall>i \<in> set boot. i < length X_train \<and> i < length y_train"
  shows "\<exists>ps. fit_boot_predictors A predictor X_train y_train boots = Inr ps"
  using assms by (induction boots) (auto simp: take_rows_def)

text \<open>
  Claim C6. Once the sampling loops have returned the \<open>B\<close> bootstrap index sets
  \<open>samples\<close> (on a training set with as many labels as rows), \<open>fit\<close> raises if and
  only if some training sample is in every one of the \<open>B\<close> bootstrap index sets, and it
  then raises the RuntimeError of line 622; otherwise it returns, and the stored matrix
  has \<open>T\<close> rows of \<open>B\<close> entries, each row summing to 1 (so within \<open>1e-9\<close> of 1).
\<close>

theorem fit_oob_matrix:
  assumes samp: "sample_bootstraps R (e_random_state self) (length X_train) [0..<e_B self] g
                   = Some (samples, g')"
    and len: "length y_train = length X_train"
    and ok: "rng_ok R (length X_train)"
  shows "((\<exists>e. fit A S R self X_train y_train h g = Some (Inl e))
            \<longleftrightarrow> (\<exists>i < length X_train. \<forall>b < e_B self. i \<in> set (fst (samples ! b))))
       \<and> ((\<exists>i < length X_train. \<forall>b < e_B self. i \<in> set (fst (samples ! b)))
            \<longrightarrow> fit A S R self X_train y_train h g = Some (Inl RuntimeError))
       \<and> (\<not> (\<exists>i < length X_train. \<forall>b < e_B self. i \<in> set (fst (samples ! b)))
            \<longrightarrow> (\<exists>self' h' M. fit A S R self X_train y_train h g = Some (Inr (self', h', g'))
                  \<and> e_oob_matrix self' = Some M \<and> length M = length X_train
                  \<and> (\<forall>row \<in> set M. length row = e_B self \<and> sum_list row = 1
                                      \<and> \<bar>sum_list row - 1\<bar> \<le> 1 / 10 ^ 9)))"
proof -
  let ?T = "length X_train"
  let ?B = "e_B self"
  let ?boots = "map fst samples"
  let ?oobs = "map snd samples"
  let ?never = "\<exists>i < ?T. \<forall>b < ?B. i \<in> set (fst (samples ! b))"
  from sample_bootstraps_ok[OF samp] have ls: "length samples = ?B"
    and sok: "\<forall>sample \<in> set samples. sample_ok R ?T sample" by auto
  have oob: "i \<in> set (?oobs ! b) \<longleftrightarrow> i \<notin> set (fst (samples ! b))" if "i < ?T" "b < ?B" for i b
  proof -
    have "samples ! b \<in> set samples" using that ls by simp
    with sok have "snd (samples ! b) = setdiff1d [0..<?T] (fst (samples ! b))"
      by (auto simp: sample_ok_def)
    then show ?thesis using that ls by (simp add: setdiff1d_upt)
  qed
  have zero: "(\<exists>i \<in> set [0..<?T]. sum_list (oobs_for_unit ?B ?oobs i) = 0) \<longleftrightarrow> ?never"
    unfolding oobs_for_unit_zero using oob by auto
  have inrange: "\<forall>boot \<in> set ?boots. \<forall>i \<in> set boot. i < length X_train \<and> i < length y_train"
  proof (intro ballI)
    fix boot i assume b: "boot \<in> set ?boots" and i: "i \<in> set boot"
    from b obtain sample where s: "sample \<in> set samples" and e: "boot = fst sample" by auto
    from sok s obtain g0 where "fst sample = fst (rng_draw R g0 ?T)"
      by (auto simp: sample_ok_def)
    with ok e i have "i < ?T" by (auto simp: rng_ok_def)
    then show "i < length X_train \<and> i < length y_train" using len by simp
  qed
  from fit_boot_predictors_Inr[OF inrange, of A "e_predictor self"] obtain ps where
    ps: "fit_boot_predictors A (e_predictor self) X_train y_train ?boots = Inr ps" by blast
  have bad: "fit A S R self X_train y_train h g = Some (Inl RuntimeError)" if n: ?never
  proof -
    from n zero have "\<exists>e. build_oob_matrix ?B ?oobs [0..<?T] = Inl e"
      unfolding build_oob_matrix_Inl by blast
    then obtain e where e: "build_oob_matrix ?B ?oobs [0..<?T] = Inl e" by blast
    then have "e = RuntimeError" by (rule build_oob_matrix_error)
    with e show ?thesis using samp by (simp add: fit_def Let_def)
  qed
  have good: "\<exists>self' h' M. fit A S R self X_train y_train h g = Some (Inr (self', h', g'))
                  \<and> e_oob_matrix self' = Some M \<and> length M = ?T
                  \<and> (\<forall>row \<in> set M. length row = ?B \<and> sum_list row = 1
                                      \<and> \<bar>sum_list row - 1\<bar> \<le> 1 / 10 ^ 9)" if n: "\<not> ?never"
  proof -
    from n zero have "\<not> (\<exists>e. build_oob_matrix ?B ?oobs [0..<?T] = Inl e)"
      unfolding build_oob_matrix_Inl by blast
    then obtain rows where r: "build_oob_matrix ?B ?oobs [0..<?T] = Inr rows"
      by (cases "build_oob_matrix ?B ?oobs [0..<?T]") auto
    from build_oob_matrix_Inr[OF r] have rows: "rows = map (oobs_for_unit ?B ?oobs) [0..<?T]"
      and nz: "\<forall>i \<in> set [0..<?T]. sum_list (oobs_for_unit ?B ?oobs i) \<noteq> 0" by auto
    let ?M = "normalize_rows rows"
    have nzr: "\<forall>r \<in> set rows. sum_list r \<noteq> 0" using rows nz by auto
    have lM: "length ?M = ?T" using rows by (simp add: normalize_rows_def)
    have rowsB: "\<forall>row \<in> set ?M. length row = ?B"
      using rows by (auto simp: normalize_rows_def oobs_for_unit_def)
    have sums: "\<forall>row \<in> set ?M. sum_list row = 1"
      using normalize_rows_sum[OF _ nzr] by blast
    let ?res = "compute_boot_residuals S ?M
                  (map (\<lambda>b. bp_predict A (ps ! b) X_train) [0..<?B]) y_train"
    let ?self' = "self\<lparr>e_oob_dict := ?oobs, e_boot_dict := ?boots,
                       e_oob_matrix := Some ?M, e_boot_predictors := Some ps\<rparr>"
    have f: "fit A S R self X_train y_train h g
               = Some (Inr (?self', list_iadd (e_residuals self) ?res h, g'))"
      using samp r ps by (simp add: fit_def Let_def)
    have m: "e_oob_matrix ?self' = Some ?M" by simp
    have props: "\<forall>row \<in> set ?M. length row = ?B \<and> sum_list row = 1
                                      \<and> \<bar>sum_list row - 1\<bar> \<le> 1 / 10 ^ 9"
      using rowsB sums by simp
    show ?thesis using f m lM props by blast
  qed
  have iff: "(\<exists>e. fit A S R self X_train y_train h g = Some (Inl e)) \<longleftrightarrow> ?never"
  proof
    assume l: "\<exists>e. fit A S R self X_train y_train h g = Some (Inl e)"
    show ?never
    proof (rule ccontr)
      assume "\<not> ?never"
      from good[OF this] l show False by auto
    qed
  next
    assume ?never
    from bad[OF this] show "\<exists>e. fit A S R self X_train y_train h g = Some (Inl e)" by blast
  qed
  show ?thesis using iff bad good by blast
qed

theorem fit_oob_matrix_witness:
  "(\<exists>self' h' M.
      fit \<lparr>bp_copy = \<lambda>p. p, bp_fit = \<lambda>p X y. p, bp_predict = \<lambda>p X. map (\<lambda>x. 0) X\<rparr>
          \<lparr>mad = \<lambda>p t. map2 (\<lambda>a b. \<bar>a - b\<bar>) p t,
           constant_interval = \<lambda>p w. (map (\<lambda>v. v - w) p, map (\<lambda>v. v + w) p)\<rparr>
          \<lparr>rng_draw = \<lambda>g T. (replicate T (g mod T), Suc g), rng_seeded = nat\<rparr>
          \<lparr>e_predictor = (), e_B = 2, e_agg_func_loo = \<lambda>M. [], e_residuals = 0,
           e_boot_predictors = None, e_random_state = None, e_oob_dict = [], e_boot_dict = [],
           e_oob_matrix = None\<rparr>
          [(), ()] [0, 0] \<lparr>cells = \<lambda>r. [], next_ref = 1\<rparr> (0 :: nat)
        = Some (Inr (self', h', 2))
      \<and> e_oob_matrix self' = Some M \<and> length M = 2
      \<and> (\<forall>row \<in> set M. length row = 2 \<and> sum_list row = 1 \<and> \<bar>sum_list row - 1\<bar> \<le> 1 / 10 ^ 9))
   \<and> fit \<lparr>bp_copy = \<lambda>p. p, bp_fit = \<lambda>p X y. p, bp_predict = \<lambda>p X. map (\<lambda>x. 0) X\<rparr>
          \<lparr>mad = \<lambda>p t. map2 (\<lambda>a b. \<bar>a - b\<bar>) p t,
           constant_interval = \<lambda>p w. (map (\<lambda>v. v - w) p, map (\<lambda>v. v + w) p)\<rparr>
          \<lparr>rng_draw = \<lambda>g T. (replicate T (g mod T), Suc g), rng_seeded = nat\<rparr>
          \<lparr>e_predictor = (), e_B = 1, e_agg_func_loo = \<lambda>M. [], e_residuals = 0,
           e_boot_predictors = None, e_random_state = None, e_oob_dict = [], e_boot_dict = [],
           e_oob_matrix = None\<rparr>
          [(), ()] [0, 0] \<lparr>cells = \<lambda>r. [], next_ref = 1\<rparr> (0 :: nat)
        = Some (Inl RuntimeError)"
proof -
  let ?A = "\<lparr>bp_copy = \<lambda>p :: unit. p, bp_fit = \<lambda>p (X :: unit list) (y :: real list). p,
             bp_predict = \<lambda>p X. map (\<lambda>x. 0 :: real) X\<rparr>"
  let ?S = "\<lparr>mad = \<lambda>p t. map2 (\<lambda>a b :: real. \<bar>a - b\<bar>) p t,
             constant_interval = \<lambda>p (w :: real). (map (\<lambda>v. v - w) p, map (\<lambda>v. v + w) p)\<rparr>"
  let ?R = "\<lparr>rng_draw = \<lambda>(g :: nat) T. (replicate T (g mod T), Suc g), rng_seeded = nat\<rparr>"
  let ?self2 = "\<lparr>e_predictor = (), e_B = 2, e_agg_func_loo = \<lambda>M :: real list list. [] :: real list,
        e_residuals = 0, e_boot_predictors = None, e_random_state = None, e_oob_dict = [],
        e_boot_dict = [], e_oob_matrix = None\<rparr>"
  let ?self1 = "\<lparr>e_predictor = (), e_B = 1, e_agg_func_loo = \<lambda>M :: real list list. [] :: real list,
        e_residuals = 0, e_boot_predictors = None, e_random_state = None, e_oob_dict = [],
        e_boot_dict = [], e_oob_matrix = None\<rparr>"
  let ?h = "\<lparr>cells = \<lambda>r. [], next_ref = 1\<rparr>"
  let ?X = "[(), ()]"
  have d0: "sample_until_oob ?R None 2 0 = Some (([0, 0], [1]), 1)"
    by (subst sample_until_oob.simps) (simp add: resample_def setdiff1d_def upt_rec numeral_2_eq_2)
  have d1: "sample_until_oob ?R None 2 1 = Some (([1, 1], [0]), 2)"
    by (subst sample_until_oob.simps) (simp add: resample_def setdiff1d_def upt_rec numeral_2_eq_2)
  have s2': "sample_bootstraps ?R None 2 [0, 1] 0 = Some ([([0, 0], [1]), ([1, 1], [0])], 2)"
    using d0 d1 by simp
  have s1': "sample_bootstraps ?R None 2 [0] 0 = Some ([([0, 0], [1])], 1)"
    using d0 by simp
  have e1: "length ?X = 2" by simp
  have e2: "[0..<e_B ?self2] = [0, 1]" by (simp add: upt_rec)
  have e3: "e_random_state ?self2 = None" "e_random_state ?self1 = None" by simp_all
  have e4: "[0..<e_B ?self1] = [0]" by simp
  have s2: "sample_bootstraps ?R (e_random_state ?self2) (length ?X) [0..<e_B ?self2] 0
              = Some ([([0, 0], [1]), ([1, 1], [0])], 2)"
    unfolding e1 e2 e3 by (rule s2')
  have s1: "sample_bootstraps ?R (e_random_state ?self1) (length ?X) [0..<e_B ?self1] 0
              = Some ([([0, 0], [1])], 1)"
    unfolding e1 e4 e3 by (rule s1')
  have len: "length [0, 0 :: real] = length ?X" by simp
  have ok: "rng_ok ?R (length ?X)" by (simp add: rng_ok_def)
  let ?s2 = "[([0, 0], [1]), ([1, 1], [0])] :: (nat list \<times> nat list) list"
  let ?s1 = "[([0, 0], [1])] :: (nat list \<times> nat list) list"
  have n2: "\<not> (\<exists>i < length ?X. \<forall>b < e_B ?self2. i \<in> set (fst (?s2 ! b)))"
  proof
    assume "\<exists>i < length ?X. \<forall>b < e_B ?self2. i \<in> set (fst (?s2 ! b))"
    then obtain i where i: "\<forall>b < 2. i \<in> set (fst (?s2 ! b))"
      by auto
    from i have "(0 :: nat) < 2 \<longrightarrow> i \<in> set (fst (?s2 ! 0))"
      by (rule spec)
    then have "i = 0" by simp
    moreover from i have "(1 :: nat) < 2 \<longrightarrow> i \<in> set (fst (?s2 ! 1))"
      by (rule spec)
    then have "i = 1" by simp
    ultimately show False by simp
  qed
  have n1: "\<exists>i < length ?X. \<forall>b < e_B ?self1. i \<in> set (fst (?s1 ! b))"
    by (rule exI[of _ 0]) simp
  have a: "\<exists>self' h' M. fit ?A ?S ?R ?self2 ?X [0, 0] ?h 0 = Some (Inr (self', h', 2))
      \<and> e_oob_matrix self' = Some M \<and> length M = 2
      \<and> (\<forall>row \<in> set M. length row = 2 \<and> sum_list row = 1 \<and> \<bar>sum_list row - 1\<bar> \<le> 1 / 10 ^ 9)"
    using fit_oob_matrix[OF s2 len ok, of ?A ?S ?h, THEN conjunct2, THEN conjunct2, THEN mp, OF n2]
    by (simp add: numeral_2_eq_2)
  have b: "fit ?A ?S ?R ?self1 ?X [0, 0] ?h 0 = Some (Inl RuntimeError)"
    using fit_oob_matrix[OF s1 len ok, of ?A ?S ?h, THEN conjunct2, THEN conjunct1, THEN mp, OF n1]
    by simp
  show ?thesis using a b by blast
qed

section \<open>Properties of EnbPI.predict\<close>

lemma concat_fixed_batches:
  "concat (map (\<lambda>i. take s (drop (i * s) a)) [0..<k]) = take (k * s) a"
proof (induction k)
  case 0
  then show ?case by simp
next
  case (Suc k)
  have "take (k * s) a @ take s (drop (k * s) a) = take (k * s + s) a"
    by (simp add: take_add)
  then show ?case using Suc by (simp add: add.commute)
qed

lemma batches_split:
  assumes "0 < n"
  shows "map (batch_of n s a) [0..<n]
           = map (\<lambda>i. take s (drop (i * s) a)) [0..<n - 1] @ [drop ((n - 1) * s) a]"
proof -
  have "[0..<n] = [0..<n - 1] @ [n - 1]" using assms by (cases n) auto
  then have "map (batch_of n s a) [0..<n]
               = map (batch_of n s a) [0..<n - 1] @ [batch_of n s a (n - 1)]"
    by simp
  moreover have "map (batch_of n s a) [0..<n - 1] = map (\<lambda>i. take s (drop (i * s) a)) [0..<n - 1]"
    by (rule map_cong) (auto simp: batch_of_def)
  moreover have "batch_of n s a (n - 1) = drop ((n - 1) * s) a" by (simp add: batch_of_def)
  ultimately show ?thesis by simp
qed

lemma concat_batches:
  assumes "0 < n"
  shows "concat (map (batch_of n s a) [0..<n]) = a"
  unfolding batches_split[OF assms] by (simp add: concat_fixed_batches)

lemma length_fixed_batch:
  assumes "i < n - 1" and "n = length a div s"
  shows "length (batch_of n s a i) = s"
proof -
  have "Suc i \<le> length a div s" using assms by simp
  then have "Suc i * s \<le> length a div s * s" by (rule mult_le_mono1)
  also have "\<dots> \<le> length a" by simp
  finally have "i * s + s \<le> length a" by (simp add: add.commute)
  then show ?thesis using assms by (simp add: batch_of_def)
qed

lemma length_last_batch:
  assumes "0 < s" and "s \<le> length a" and "n = length a div s"
  shows "length (batch_of n s a (n - 1)) = s + length a mod s"
proof -
  have n: "0 < n" using assms by (simp add: div_greater_zero_iff)
  have "length a = n * s + length a mod s" using assms by simp
  moreover have "n * s = (n - 1) * s + s" using n by (cases n) auto
  ultimately have "length a - (n - 1) * s = s + length a mod s" by linarith
  then show ?thesis by (simp add: batch_of_def)
qed

lemma batch_step_outputs:
  assumes "batch_step A S self bp n s X y_true alpha i st = Inr st'"
    and "e_oob_matrix self = Some M"
  shows "ls_y_pred_list st'
           = ls_y_pred_list st @ y_pred_of_batch A self bp M (batch_of n s X i)
       \<and> ls_y_pred_lower_list st'
           = ls_y_pred_lower_list st
             @ fst (compute_pi S (y_pred_of_batch A self bp M (batch_of n s X i)) (ls_res_quantile st))
       \<and> ls_y_pred_upper_list st'
           = ls_y_pred_upper_list st
             @ snd (compute_pi S (y_pred_of_batch A self bp M (batch_of n s X i)) (ls_res_quantile st))"
  using assms
  by (auto simp: batch_step_def Let_def split: if_splits option.splits sum.splits)

lemma predict_loop_outputs:
  assumes "predict_loop A S self bp n s X y_true alpha is st = Inr st'"
    and "e_oob_matrix self = Some M"
  shows "ls_y_pred_list st'
           = ls_y_pred_list st
             @ concat (map (\<lambda>i. y_pred_of_batch A self bp M (batch_of n s X i)) is)"
  using assms
proof (induction "is" arbitrary: st)
  case Nil
  then show ?case by simp
next
  case (Cons i rest)
  from Cons.prems(1) obtain st1 where
    s1: "batch_step A S self bp n s X y_true alpha i st = Inr st1"
    and r: "predict_loop A S self bp n s X y_true alpha rest st1 = Inr st'"
    by (auto split: sum.splits)
  from batch_step_outputs[OF s1 Cons.prems(2)] Cons.IH[OF r Cons.prems(2)]
  show ?case by simp
qed

text \<open>
  Claim C8, as the code has it. Without \<open>y_true\<close> or without \<open>s\<close> the whole test set is
  one batch. With both, for \<open>1 \<le> s \<le> len(X_test) = len(y_true)\<close>, there are
  \<open>len(y_true) // s\<close> batches in all: every batch but the last has \<open>s\<close> samples, the last
  one has the remaining \<open>s + len(y_true) mod s\<close>, and the batches in order make up the
  test set, each sample in exactly one batch. The prediction \<open>predict\<close> returns is the
  concatenation of the predictions of these batches.
\<close>

theorem predict_batches:
  fixes X_test :: "'x list"
  shows "(y_true = None \<or> s = None \<longrightarrow>
            batch_plan X_test y_true s = Inr (1, length X_test)
            \<and> map (batch_of 1 (length X_test) X_test) [0..<1] = [X_test])
       \<and> (y_true = Some yt \<and> s = Some sv \<and> 0 < sv \<and> length yt = length X_test
            \<and> nat sv \<le> length X_test \<longrightarrow>
            batch_plan X_test y_true s = Inr (length X_test div nat sv, nat sv)
            \<and> (\<forall>i < length X_test div nat sv - 1.
                  length (batch_of (length X_test div nat sv) (nat sv) X_test i) = nat sv)
            \<and> length (batch_of (length X_test div nat sv) (nat sv) X_test
                        (length X_test div nat sv - 1))
                = nat sv + length X_test mod nat sv
            \<and> concat (map (batch_of (length X_test div nat sv) (nat sv) X_test)
                        [0..<length X_test div nat sv]) = X_test)
       \<and> (predict A S self X_test alpha y_true s h = (Inr (y_pred, y_lower, y_upper), h')
            \<and> batch_plan X_test y_true s = Inr (n_batches, s')
            \<and> e_boot_predictors self = Some bp \<and> e_oob_matrix self = Some M \<longrightarrow>
            y_pred = concat (map (\<lambda>i. y_pred_of_batch A self bp M (batch_of n_batches s' X_test i))
                                 [0..<n_batches]))"
proof (intro conjI impI)
  assume "y_true = None \<or> s = None"
  then show "batch_plan X_test y_true s = Inr (1, length X_test)"
    by (auto simp: batch_plan_def split: option.splits)
next
  show "map (batch_of 1 (length X_test) X_test) [0..<1] = [X_test]"
    by (simp add: batch_of_def)
next
  assume a: "y_true = Some yt \<and> s = Some sv \<and> 0 < sv \<and> length yt = length X_test
            \<and> nat sv \<le> length X_test"
  have "int (length X_test) div sv = int (length X_test div nat sv)"
    using a by (simp add: zdiv_int)
  then show "batch_plan X_test y_true s = Inr (length X_test div nat sv, nat sv)"
    using a by (simp add: batch_plan_def)
next
  assume a: "y_true = Some yt \<and> s = Some sv \<and> 0 < sv \<and> length yt = length X_test
            \<and> nat sv \<le> length X_test"
  show "\<forall>i < length X_test div nat sv - 1.
                  length (batch_of (length X_test div nat sv) (nat sv) X_test i) = nat sv"
    by (intro allI impI length_fixed_batch) auto
next
  assume a: "y_true = Some yt \<and> s = Some sv \<and> 0 < sv \<and> length yt = length X_test
            \<and> nat sv \<le> length X_test"
  then show "length (batch_of (length X_test div nat sv) (nat sv) X_test
                        (length X_test div nat sv - 1))
                = nat sv + length X_test mod nat sv"
    by (intro length_last_batch) auto
next
  assume a: "y_true = Some yt \<and> s = Some sv \<and> 0 < sv \<and> length yt = length X_test
            \<and> nat sv \<le> length X_test"
  then have "0 < length X_test div nat sv" by (simp add: div_greater_zero_iff)
  then show "concat (map (batch_of (length X_test div nat sv) (nat sv) X_test)
                        [0..<length X_test div nat sv]) = X_test"
    by (rule concat_batches)
next
  assume a: "predict A S self X_test alpha y_true s h = (Inr (y_pred, y_lower, y_upper), h')
            \<and> batch_plan X_test y_true s = Inr (n_batches, s')
            \<and> e_boot_predictors self = Some bp \<and> e_oob_matrix self = Some M"
  let ?h2 = "snd (alloc (cells (snd (alloc (cells h (e_residuals self)) h))
                          (fst (alloc (cells h (e_residuals self)) h)))
                        (snd (alloc (cells h (e_residuals self)) h)))"
  let ?u = "fst (alloc (cells (snd (alloc (cells h (e_residuals self)) h))
                          (fst (alloc (cells h (e_residuals self)) h)))
                        (snd (alloc (cells h (e_residuals self)) h)))"
  from a obtain q where q: "np_quantile_linear (cells ?h2 (e_residuals self)) (1 - alpha) = Inr q"
    by (auto simp: predict_def Let_def split: sum.splits)
  let ?st0 = "\<lparr>ls_heap = ?h2, ls_updated_residuals = ?u, ls_res_quantile = q,
               ls_y_pred_list = [], ls_y_pred_lower_list = [], ls_y_pred_upper_list = []\<rparr>"
  from a q obtain st where
    l: "predict_loop A S self bp n_batches s' X_test y_true alpha [0..<n_batches] ?st0 = Inr st"
    and y: "y_pred = ls_y_pred_list st"
    by (auto simp: predict_def Let_def split: sum.splits prod.splits)
  from predict_loop_outputs[OF l] a y
  show "y_pred = concat (map (\<lambda>i. y_pred_of_batch A self bp M (batch_of n_batches s' X_test i))
                                 [0..<n_batches])" by simp
qed

theorem predict_batches_witness:
  "batch_plan [10, 20, 30, 40, 50 :: real] None (Some 2) = Inr (1, 5)
   \<and> map (batch_of 1 (length [10, 20, 30, 40, 50 :: real]) [10, 20, 30, 40, 50 :: real]) [0..<1]
       = [[10, 20, 30, 40, 50]]
   \<and> batch_plan [10, 20, 30, 40, 50 :: real] (Some [11, 19, 30, 42, 50]) (Some 2) = Inr (2, 2)
   \<and> length (batch_of 2 2 [10, 20, 30, 40, 50 :: real] 1) = 3
   \<and> concat (map (batch_of 2 2 [10, 20, 30, 40, 50 :: real]) [0..<2]) = [10, 20, 30, 40, 50]
   \<and> [10, 20, 30, 40, 50 :: real]
       = concat (map (\<lambda>i. y_pred_of_batch
                            \<lparr>bp_copy = \<lambda>p. p, bp_fit = \<lambda>p X y. p, bp_predict = \<lambda>p X. X\<rparr>
                            \<lparr>e_predictor = (), e_B = 1, e_agg_func_loo = concat, e_residuals = 0,
                             e_boot_predictors = Some [()], e_random_state = None,
                             e_oob_dict = [[0]], e_boot_dict = [[0]], e_oob_matrix = Some [[1]]\<rparr>
                            [()] [[1]] (batch_of 2 2 [10, 20, 30, 40, 50] i)) [0..<2])"
proof -
  let ?A = "\<lparr>bp_copy = \<lambda>p :: unit. p, bp_fit = \<lambda>p (X :: real list) (y :: real list). p,
             bp_predict = \<lambda>p X. X\<rparr>"
  let ?S = "\<lparr>mad = \<lambda>p t. map2 (\<lambda>a b :: real. \<bar>a - b\<bar>) p t,
             constant_interval = \<lambda>p (w :: real). (map (\<lambda>v. v - w) p, map (\<lambda>v. v + w) p)\<rparr>"
  let ?self = "\<lparr>e_predictor = (), e_B = 1, e_agg_func_loo = concat, e_residuals = 0,
                e_boot_predictors = Some [()], e_random_state = None, e_oob_dict = [[0]],
                e_boot_dict = [[0]], e_oob_matrix = Some [[1 :: real]]\<rparr>"
  let ?X = "[10, 20, 30, 40, 50 :: real]"
  let ?y = "[11, 19, 30, 42, 50 :: real]"
  let ?h = "\<lparr>cells = (\<lambda>r. [])(0 := [1, 2, 3 :: real]), next_ref = 1\<rparr>"
  let ?p = "predict ?A ?S ?self ?X (1/2) (Some ?y) (Some 2) ?h"
  have ex: "fst ?p = Inr (?X, [8, 18, 29, 39, 49], [12, 22, 31, 41, 51])"
    by (simp add: predict_def batch_step_def np_quantile_linear_def batch_plan_def alloc_def
      list_iadd_def batch_of_def y_pred_of_batch_def compute_pi_def compute_residuals_def
      compute_loo_predictions_def matmul_def Let_def upt_rec)
  have p: "?p = (Inr (?X, [8, 18, 29, 39, 49], [12, 22, 31, 41, 51]), snd ?p)"
    using ex by (cases ?p) simp
  have plan: "batch_plan ?X (Some ?y) (Some 2) = Inr (2, 2)" by (simp add: batch_plan_def)
  have c1: "batch_plan ?X None (Some 2) = Inr (1, length ?X)
            \<and> map (batch_of 1 (length ?X) ?X) [0..<1] = [?X]"
    using predict_batches[where y_true = None and s = "Some 2" and X_test = ?X,
            THEN conjunct1] by simp
  have h2: "Some ?y = Some ?y \<and> Some (2 :: int) = Some 2 \<and> (0 :: int) < 2
            \<and> length ?y = length ?X \<and> nat 2 \<le> length ?X" by simp
  note c2 = predict_batches[where y_true = "Some ?y" and s = "Some 2" and X_test = ?X
              and yt = ?y and sv = 2, THEN conjunct2, THEN conjunct1, THEN mp, OF h2]
  have h3: "?p = (Inr (?X, [8, 18, 29, 39, 49], [12, 22, 31, 41, 51]), snd ?p)
            \<and> batch_plan ?X (Some ?y) (Some 2) = Inr (2, 2)
            \<and> e_boot_predictors ?self = Some [()] \<and> e_oob_matrix ?self = Some [[1]]"
    using p plan by simp
  note c3 = predict_batches[where A = ?A and S = ?S and self = ?self and X_test = ?X
              and alpha = "1/2" and y_true = "Some ?y" and s = "Some 2" and h = ?h
              and y_pred = ?X and y_lower = "[8, 18, 29, 39, 49]"
              and y_upper = "[12, 22, 31, 41, 51]" and h' = "snd ?p" and n_batches = 2
              and s' = 2 and bp = "[()]" and M = "[[1]]",
              THEN conjunct2, THEN conjunct2, THEN mp, OF h3]
  have d: "length ?X div nat 2 = 2" "length ?X mod nat 2 = 1" "nat 2 = (2 :: nat)" by simp_all
  show ?thesis using c1 c2 c3
    by (simp add: batch_of_def batch_plan_def upt_rec y_pred_of_batch_def
        compute_loo_predictions_def matmul_def)
qed

text \<open>
  Claim C8 as stated fails. For five test samples and \<open>s = 2\<close> it announces two batches
  of two samples and a remainder batch of one; the code makes two batches, the second
  with the three remaining samples. For three test samples and \<open>s = 5\<close> the code makes
  no batch at all, and \<open>predict\<close> returns empty arrays.
\<close>

theorem predict_batches_counterexample:
  "batch_plan [10, 20, 30, 40, 50 :: real] (Some [11, 19, 30, 42, 50]) (Some 2) = Inr (2, 2)
   \<and> map (batch_of 2 2 [10, 20, 30, 40, 50 :: real]) [0..<2] = [[10, 20], [30, 40, 50]]
   \<and> fst (predict
     \<lparr>bp_copy = \<lambda>p. p, bp_fit = \<lambda>p X y. p, bp_predict = \<lambda>p X. X\<rparr>
     \<lparr>mad = \<lambda>p t. map2 (\<lambda>a b. \<bar>a - b\<bar>) p t,
      constant_interval = \<lambda>p w. (map (\<lambda>v. v - w) p, map (\<lambda>v. v + w) p)\<rparr>
     \<lparr>e_predictor = (), e_B = 1, e_agg_func_loo = concat, e_residuals = 0,
      e_boot_predictors = Some [()], e_random_state = None, e_oob_dict = [[0]],
      e_boot_dict = [[0]], e_oob_matrix = Some [[1]]\<rparr>
     [10, 20, 30] (1/2) (Some [11, 19, 30]) (Some 5)
     \<lparr>cells = (\<lambda>r. [])(0 := [1, 2, 3]), next_ref = 1\<rparr>)
     = Inr ([], [], [])"
  by (simp add: predict_def batch_step_def np_quantile_linear_def batch_plan_def alloc_def
      list_iadd_def batch_of_def upt_rec Let_def)


text \<open>
  The list \<open>self.residuals\<close> is created by the constructor and kept by \<open>fit\<close>: on an
  object built and fitted in a store, the reference is in use, as the theorem on
  \<open>predict\<close> below requires.
\<close>

lemma EnbPI_init_allocated:
  assumes "EnbPI_init predictor B agg_func_loo random_state h = (self, h')"
  shows "e_residuals self < next_ref h' \<and> cells h' (e_residuals self) = []"
  using assms by (auto simp: EnbPI_init_def alloc_def)

lemma fit_keeps_allocated:
  assumes "fit A S R self X_train y_train h g = Some (Inr (self', h', g'))"
  shows "e_residuals self' = e_residuals self \<and> next_ref h' = next_ref h"
  using assms
  by (auto simp: fit_def Let_def list_iadd_def split: option.splits sum.splits prod.splits)

lemma alloc_frame:
  "fst (alloc xs h) = next_ref h \<and> next_ref (snd (alloc xs h)) = Suc (next_ref h)
   \<and> cells (snd (alloc xs h)) (next_ref h) = xs
   \<and> (\<forall>r < next_ref h. cells (snd (alloc xs h)) r = cells h r)"
  by (simp add: alloc_def)

lemma heap_extends_refl: "heap_extends h h"
  by (simp add: heap_extends_def)

lemma heap_extends_trans: "heap_extends h1 h2 \<Longrightarrow> heap_extends h2 h3 \<Longrightarrow> heap_extends h1 h3"
  by (auto simp: heap_extends_def)

lemma heap_extends_alloc: "heap_extends h (snd (alloc xs h))"
  by (simp add: heap_extends_def alloc_def)

lemma heap_extends_slide:
  "heap_extends h (list_iadd (fst (alloc xs h)) ys (snd (alloc xs h)))"
  by (simp add: heap_extends_def alloc_def list_iadd_def)

lemma batch_step_frame_Inr:
  "batch_step A S self bp n s X y_true alpha i st = Inr st'
     \<Longrightarrow> heap_extends (ls_heap st) (ls_heap st')"
  by (auto simp: batch_step_def Let_def heap_extends_refl heap_extends_slide
      split: if_splits option.splits sum.splits)

lemma batch_step_frame_Inl:
  "batch_step A S self bp n s X y_true alpha i st = Inl (e, h')
     \<Longrightarrow> heap_extends (ls_heap st) h'"
  by (auto simp: batch_step_def Let_def heap_extends_refl heap_extends_slide
      split: if_splits option.splits sum.splits)

lemma predict_loop_frame:
  "(predict_loop A S self bp n s X y_true alpha is st = Inr st'
      \<longrightarrow> heap_extends (ls_heap st) (ls_heap st'))
   \<and> (predict_loop A S self bp n s X y_true alpha is st = Inl (e, h')
      \<longrightarrow> heap_extends (ls_heap st) h')"
proof (induction "is" arbitrary: st)
  case Nil
  then show ?case by (simp add: heap_extends_refl)
next
  case (Cons i rest)
  show ?case
  proof (cases "batch_step A S self bp n s X y_true alpha i st")
    case (Inl eh)
    obtain e1 h1 where eh: "eh = (e1, h1)" by (cases eh)
    have "heap_extends (ls_heap st) h1" using Inl eh by (simp add: batch_step_frame_Inl)
    then show ?thesis using Inl eh by auto
  next
    case (Inr st1)
    then have e: "heap_extends (ls_heap st) (ls_heap st1)" by (rule batch_step_frame_Inr)
    have l: "predict_loop A S self bp n s X y_true alpha (i # rest) st
               = predict_loop A S self bp n s X y_true alpha rest st1"
      using Inr by simp
    show ?thesis unfolding l using Cons.IH[of st1] heap_extends_trans[OF e] by blast
  qed
qed

lemma predict_frame: "heap_extends h (snd (predict A S self X_test alpha y_true s h))"
proof -
  let ?c = "alloc (cells h (e_residuals self)) h"
  let ?u = "alloc (cells (snd ?c) (fst ?c)) (snd ?c)"
  have h2: "heap_extends h (snd ?u)"
    using heap_extends_trans[OF heap_extends_alloc heap_extends_alloc] .
  show ?thesis
  proof (cases "np_quantile_linear (cells (snd ?u) (e_residuals self)) (1 - alpha)")
    case (Inl e)
    then show ?thesis using h2 by (simp add: predict_def Let_def)
  next
    case (Inr q)
    show ?thesis
    proof (cases "batch_plan X_test y_true s")
      case (Inl e)
      then show ?thesis using h2 Inr by (simp add: predict_def Let_def)
    next
      case bp: (Inr plan)
      obtain n s' where plan: "plan = (n, s')" by (cases plan)
      show ?thesis
      proof (cases "e_boot_predictors self")
        case None
        then show ?thesis using h2 Inr bp plan by (simp add: predict_def Let_def)
      next
        case (Some bps)
        let ?st0 = "\<lparr>ls_heap = snd ?u, ls_updated_residuals = fst ?u, ls_res_quantile = q,
               ls_y_pred_list = [], ls_y_pred_lower_list = [], ls_y_pred_upper_list = []\<rparr>"
        show ?thesis
        proof (cases "predict_loop A S self bps n s' X_test y_true alpha [0..<n] ?st0")
          case (Inl eh)
          obtain e' h' where eh: "eh = (e', h')" by (cases eh)
          have "heap_extends (ls_heap ?st0) h'"
            using predict_loop_frame[THEN conjunct2, THEN mp, OF Inl[unfolded eh]] .
          then have "heap_extends h h'" using h2 heap_extends_trans by fastforce
          then show ?thesis using Inr bp plan Some Inl eh by (simp add: predict_def Let_def)
        next
          case st: (Inr st')
          have "heap_extends (ls_heap ?st0) (ls_heap st')"
            using predict_loop_frame[THEN conjunct1, THEN mp, OF st] .
          then have "heap_extends h (ls_heap st')" using h2 heap_extends_trans by fastforce
          then show ?thesis using Inr bp plan Some st by (simp add: predict_def Let_def)
        qed
      qed
    qed
  qed
qed

lemma slide_cells:
  "cells (list_iadd (fst (alloc xs h)) ys (snd (alloc xs h))) (fst (alloc xs h)) = xs @ ys"
  by (simp add: alloc_def list_iadd_def)

lemma batch_step_cases:
  assumes "e_B self \<le> length bp" and "e_oob_matrix self = Some M"
  shows "batch_step A S self bp n s X (Some yt) alpha i st =
     (case np_quantile_linear
             (drop s (cells (ls_heap st) (ls_updated_residuals st))
              @ compute_residuals S (y_pred_of_batch A self bp M (batch_of n s X i))
                                    (batch_of n s yt i)) (1 - alpha) of
        Inl e \<Rightarrow>
          Inl (e, list_iadd (fst (alloc (drop s (cells (ls_heap st) (ls_updated_residuals st)))
                                        (ls_heap st)))
                     (compute_residuals S (y_pred_of_batch A self bp M (batch_of n s X i))
                                          (batch_of n s yt i))
                     (snd (alloc (drop s (cells (ls_heap st) (ls_updated_residuals st)))
                                 (ls_heap st))))
      | Inr q \<Rightarrow>
          Inr (st\<lparr>ls_y_pred_upper_list := ls_y_pred_upper_list st
                      @ snd (compute_pi S (y_pred_of_batch A self bp M (batch_of n s X i))
                                          (ls_res_quantile st)),
                   ls_y_pred_lower_list := ls_y_pred_lower_list st
                      @ fst (compute_pi S (y_pred_of_batch A self bp M (batch_of n s X i))
                                          (ls_res_quantile st)),
                   ls_y_pred_list := ls_y_pred_list st
                      @ y_pred_of_batch A self bp M (batch_of n s X i),
                   ls_heap :=
                     list_iadd (fst (alloc (drop s (cells (ls_heap st) (ls_updated_residuals st)))
                                           (ls_heap st)))
                       (compute_residuals S (y_pred_of_batch A self bp M (batch_of n s X i))
                                            (batch_of n s yt i))
                       (snd (alloc (drop s (cells (ls_heap st) (ls_updated_residuals st)))
                                   (ls_heap st))),
                   ls_updated_residuals :=
                     fst (alloc (drop s (cells (ls_heap st) (ls_updated_residuals st)))
                                (ls_heap st)),
                   ls_res_quantile := q\<rparr>))"
  using assms by (simp add: batch_step_def Let_def slide_cells)

lemma batch_step_same:
  assumes sl: "same_locals st1 st2"
  shows "same_outcome (batch_step A S self bp n s X y_true alpha i st1)
                      (batch_step A S self bp n s X y_true alpha i st2)"
proof (cases "\<not> e_B self \<le> length bp")
  case True
  then show ?thesis by (simp add: batch_step_def Let_def same_outcome_def)
next
  case False
  then have B: "e_B self \<le> length bp" by simp
  show ?thesis
  proof (cases "e_oob_matrix self")
    case None
    then show ?thesis using B by (simp add: batch_step_def Let_def same_outcome_def)
  next
    case (Some M)
    have q: "ls_res_quantile st2 = ls_res_quantile st1"
      and l1: "ls_y_pred_list st2 = ls_y_pred_list st1"
      and l2: "ls_y_pred_lower_list st2 = ls_y_pred_lower_list st1"
      and l3: "ls_y_pred_upper_list st2 = ls_y_pred_upper_list st1"
      and c: "cells (ls_heap st2) (ls_updated_residuals st2)
                = cells (ls_heap st1) (ls_updated_residuals st1)"
      using sl by (simp_all add: same_locals_def)
    show ?thesis
    proof (cases y_true)
      case None
      then show ?thesis using B Some q l1 l2 l3 c
        by (simp add: batch_step_def Let_def same_outcome_def same_locals_def)
    next
      case (Some yt)
      note yt = this
      let ?yp = "y_pred_of_batch A self bp M (batch_of n s X i)"
      let ?res = "compute_residuals S ?yp (batch_of n s yt i)"
      let ?pool = "drop s (cells (ls_heap st1) (ls_updated_residuals st1)) @ ?res"
      have s1: "batch_step A S self bp n s X y_true alpha i st1
                  = batch_step A S self bp n s X (Some yt) alpha i st1" using yt by simp
      have s2: "batch_step A S self bp n s X y_true alpha i st2
                  = batch_step A S self bp n s X (Some yt) alpha i st2" using yt by simp
      show ?thesis
      proof (cases "np_quantile_linear ?pool (1 - alpha)")
        case (Inl e)
        have "\<exists>h. batch_step A S self bp n s X (Some yt) alpha i st1 = Inl (e, h)"
          unfolding batch_step_cases[OF B \<open>e_oob_matrix self = Some M\<close>] using Inl by simp
        moreover have "\<exists>h. batch_step A S self bp n s X (Some yt) alpha i st2 = Inl (e, h)"
          unfolding batch_step_cases[OF B \<open>e_oob_matrix self = Some M\<close>] c using Inl by simp
        ultimately show ?thesis unfolding s1 s2 by (auto simp: same_outcome_def)
      next
        case (Inr qq)
        have "\<exists>a. batch_step A S self bp n s X (Some yt) alpha i st1 = Inr a
                \<and> ls_res_quantile a = qq
                \<and> ls_y_pred_list a = ls_y_pred_list st1 @ ?yp
                \<and> ls_y_pred_lower_list a
                    = ls_y_pred_lower_list st1 @ fst (compute_pi S ?yp (ls_res_quantile st1))
                \<and> ls_y_pred_upper_list a
                    = ls_y_pred_upper_list st1 @ snd (compute_pi S ?yp (ls_res_quantile st1))
                \<and> cells (ls_heap a) (ls_updated_residuals a) = ?pool"
          unfolding batch_step_cases[OF B \<open>e_oob_matrix self = Some M\<close>] using Inr
          by (simp add: slide_cells)
        moreover have "\<exists>a. batch_step A S self bp n s X (Some yt) alpha i st2 = Inr a
                \<and> ls_res_quantile a = qq
                \<and> ls_y_pred_list a = ls_y_pred_list st1 @ ?yp
                \<and> ls_y_pred_lower_list a
                    = ls_y_pred_lower_list st1 @ fst (compute_pi S ?yp (ls_res_quantile st1))
                \<and> ls_y_pred_upper_list a
                    = ls_y_pred_upper_list st1 @ snd (compute_pi S ?yp (ls_res_quantile st1))
                \<and> cells (ls_heap a) (ls_updated_residuals a) = ?pool"
          unfolding batch_step_cases[OF B \<open>e_oob_matrix self = Some M\<close>] c q l1 l2 l3 using Inr
          by (simp add: slide_cells)
        ultimately show ?thesis unfolding s1 s2
          by (auto simp: same_outcome_def same_locals_def)
      qed
    qed
  qed
qed

lemma predict_loop_same:
  assumes "same_locals st1 st2"
  shows "same_outcome (predict_loop A S self bp n s X y_true alpha is st1)
                      (predict_loop A S self bp n s X y_true alpha is st2)"
  using assms
proof (induction "is" arbitrary: st1 st2)
  case Nil
  then show ?case by (simp add: same_outcome_def)
next
  case (Cons i rest)
  have b: "same_outcome (batch_step A S self bp n s X y_true alpha i st1)
                        (batch_step A S self bp n s X y_true alpha i st2)"
    using Cons.prems by (rule batch_step_same)
  show ?case
  proof (cases "batch_step A S self bp n s X y_true alpha i st1")
    case l1: (Inl eh1)
    obtain e1 h1 where eh1: "eh1 = (e1, h1)" by (cases eh1)
    from b l1 eh1 obtain h2 where "batch_step A S self bp n s X y_true alpha i st2 = Inl (e1, h2)"
      by (auto simp: same_outcome_def split: sum.splits)
    then show ?thesis using l1 eh1 by (simp add: same_outcome_def)
  next
    case r1: (Inr a)
    from b r1 obtain c where r2: "batch_step A S self bp n s X y_true alpha i st2 = Inr c"
      and ac: "same_locals a c"
      by (auto simp: same_outcome_def split: sum.splits)
    from Cons.IH[OF ac] show ?thesis using r1 r2 by simp
  qed
qed

lemma predict_same:
  assumes c: "cells h1 (e_residuals self) = cells h2 (e_residuals self)"
    and w1: "e_residuals self < next_ref h1" and w2: "e_residuals self < next_ref h2"
  shows "fst (predict A S self X_test alpha y_true s h1)
           = fst (predict A S self X_test alpha y_true s h2)"
proof -
  let ?r = "e_residuals self"
  let ?c1 = "alloc (cells h1 ?r) h1"
  let ?u1 = "alloc (cells (snd ?c1) (fst ?c1)) (snd ?c1)"
  let ?c2 = "alloc (cells h2 ?r) h2"
  let ?u2 = "alloc (cells (snd ?c2) (fst ?c2)) (snd ?c2)"
  have a1: "cells (snd ?u1) ?r = cells h1 ?r" using w1 by (simp add: alloc_def)
  have a2: "cells (snd ?u2) ?r = cells h1 ?r" using w2 c by (simp add: alloc_def)
  have b1: "cells (snd ?u1) (fst ?u1) = cells h1 ?r" by (simp add: alloc_def)
  have b2: "cells (snd ?u2) (fst ?u2) = cells h1 ?r" using c by (simp add: alloc_def)
  show ?thesis
  proof (cases "np_quantile_linear (cells h1 ?r) (1 - alpha)")
    case (Inl e)
    then show ?thesis using a1 a2 by (simp add: predict_def Let_def)
  next
    case (Inr q)
    show ?thesis
    proof (cases "batch_plan X_test y_true s")
      case (Inl e)
      then show ?thesis using Inr a1 a2 by (simp add: predict_def Let_def)
    next
      case bp: (Inr plan)
      obtain n s' where plan: "plan = (n, s')" by (cases plan)
      show ?thesis
      proof (cases "e_boot_predictors self")
        case None
        then show ?thesis using Inr bp plan a1 a2 by (simp add: predict_def Let_def)
      next
        case (Some bps)
        let ?s1 = "\<lparr>ls_heap = snd ?u1, ls_updated_residuals = fst ?u1, ls_res_quantile = q,
               ls_y_pred_list = [], ls_y_pred_lower_list = [], ls_y_pred_upper_list = []\<rparr>"
        let ?s2 = "\<lparr>ls_heap = snd ?u2, ls_updated_residuals = fst ?u2, ls_res_quantile = q,
               ls_y_pred_list = [], ls_y_pred_lower_list = [], ls_y_pred_upper_list = []\<rparr>"
        have "same_locals ?s1 ?s2" using b1 b2 by (simp add: same_locals_def)
        then have so: "same_outcome
                 (predict_loop A S self bps n s' X_test y_true alpha [0..<n] ?s1)
                 (predict_loop A S self bps n s' X_test y_true alpha [0..<n] ?s2)"
          by (rule predict_loop_same)
        have p1: "fst (predict A S self X_test alpha y_true s h1)
                = (case predict_loop A S self bps n s' X_test y_true alpha [0..<n] ?s1 of
                     Inl (e, h') \<Rightarrow> Inl e
                   | Inr st \<Rightarrow> Inr (ls_y_pred_list st, ls_y_pred_lower_list st,
                                       ls_y_pred_upper_list st))"
          using Inr bp plan Some a1
          by (simp add: predict_def Let_def split: sum.splits prod.splits)
        have p2: "fst (predict A S self X_test alpha y_true s h2)
                = (case predict_loop A S self bps n s' X_test y_true alpha [0..<n] ?s2 of
                     Inl (e, h') \<Rightarrow> Inl e
                   | Inr st \<Rightarrow> Inr (ls_y_pred_list st, ls_y_pred_lower_list st,
                                       ls_y_pred_upper_list st))"
          using Inr bp plan Some a2
          by (simp add: predict_def Let_def split: sum.splits prod.splits)
        show ?thesis unfolding p1 p2 using so
          by (auto simp: same_outcome_def same_locals_def split: sum.splits)
      qed
    qed
  qed
qed

text \<open>
  Claim C10. \<open>predict\<close> on an object whose list \<open>self.residuals\<close> exists in the store
  leaves every list object that existed before the call as it was, \<open>self.residuals\<close> in
  particular: the sliding window works on lists the call creates. (The method assigns no
  attribute, so the out-of-bag matrix and the bootstrap predictors are the ones of
  \<open>self\<close> throughout.) A second call with the same arguments, in the store the first one
  leaves, gives the same result, with or without \<open>y_true\<close>.
\<close>

theorem predict_leaves_state:
  assumes wf: "e_residuals self < next_ref h"
  shows "(\<forall>r < next_ref h. cells (snd (predict A S self X_test alpha y_true s h)) r = cells h r)
       \<and> cells (snd (predict A S self X_test alpha y_true s h)) (e_residuals self)
           = cells h (e_residuals self)
       \<and> fst (predict A S self X_test alpha y_true s
                (snd (predict A S self X_test alpha y_true s h)))
           = fst (predict A S self X_test alpha y_true s h)"
proof -
  let ?h' = "snd (predict A S self X_test alpha y_true s h)"
  have e: "heap_extends h ?h'" by (rule predict_frame)
  then have f: "\<forall>r < next_ref h. cells ?h' r = cells h r" by (simp add: heap_extends_def)
  then have c: "cells ?h' (e_residuals self) = cells h (e_residuals self)" using wf by blast
  have w': "e_residuals self < next_ref ?h'" using e wf by (simp add: heap_extends_def)
  have "fst (predict A S self X_test alpha y_true s ?h')
          = fst (predict A S self X_test alpha y_true s h)"
    using c w' wf by (rule predict_same)
  then show ?thesis using f c by blast
qed

theorem predict_leaves_state_witness:
  "cells (snd (predict
       \<lparr>bp_copy = \<lambda>p. p, bp_fit = \<lambda>p X y. p, bp_predict = \<lambda>p X. X\<rparr>
       \<lparr>mad = \<lambda>p t. map2 (\<lambda>a b. \<bar>a - b\<bar>) p t,
        constant_interval = \<lambda>p w. (map (\<lambda>v. v - w) p, map (\<lambda>v. v + w) p)\<rparr>
       \<lparr>e_predictor = (), e_B = 1, e_agg_func_loo = concat, e_residuals = 0,
        e_boot_predictors = Some [()], e_random_state = None, e_oob_dict = [[0]],
        e_boot_dict = [[0]], e_oob_matrix = Some [[1]]\<rparr>
       [10, 20, 30, 40, 50] (1/2) (Some [11, 19, 30, 42, 50]) (Some 2)
       \<lparr>cells = (\<lambda>r. [])(0 := [1, 2, 3]), next_ref = 1\<rparr>)) 0 = [1, 2, 3]
   \<and> fst (predict
       \<lparr>bp_copy = \<lambda>p. p, bp_fit = \<lambda>p X y. p, bp_predict = \<lambda>p X. X\<rparr>
       \<lparr>mad = \<lambda>p t. map2 (\<lambda>a b. \<bar>a - b\<bar>) p t,
        constant_interval = \<lambda>p w. (map (\<lambda>v. v - w) p, map (\<lambda>v. v + w) p)\<rparr>
       \<lparr>e_predictor = (), e_B = 1, e_agg_func_loo = concat, e_residuals = 0,
        e_boot_predictors = Some [()], e_random_state = None, e_oob_dict = [[0]],
        e_boot_dict = [[0]], e_oob_matrix = Some [[1]]\<rparr>
       [10, 20, 30, 40, 50] (1/2) (Some [11, 19, 30, 42, 50]) (Some 2)
       (snd (predict
         \<lparr>bp_copy = \<lambda>p. p, bp_fit = \<lambda>p X y. p, bp_predict = \<lambda>p X. X\<rparr>
         \<lparr>mad = \<lambda>p t. map2 (\<lambda>a b. \<bar>a - b\<bar>) p t,
          constant_interval = \<lambda>p w. (map (\<lambda>v. v - w) p, map (\<lambda>v. v + w) p)\<rparr>
         \<lparr>e_predictor = (), e_B = 1, e_agg_func_loo = concat, e_residuals = 0,
          e_boot_predictors = Some [()], e_random_state = None, e_oob_dict = [[0]],
          e_boot_dict = [[0]], e_oob_matrix = Some [[1]]\<rparr>
         [10, 20, 30, 40, 50] (1/2) (Some [11, 19, 30, 42, 50]) (Some 2)
         \<lparr>cells = (\<lambda>r. [])(0 := [1, 2, 3]), next_ref = 1\<rparr>)))
     = Inr ([10, 20, 30, 40, 50], [8, 18, 29, 39, 49], [12, 22, 31, 41, 51])"
proof -
  let ?A = "\<lparr>bp_copy = \<lambda>p :: unit. p, bp_fit = \<lambda>p (X :: real list) (y :: real list). p,
             bp_predict = \<lambda>p X. X\<rparr>"
  let ?S = "\<lparr>mad = \<lambda>p t. map2 (\<lambda>a b :: real. \<bar>a - b\<bar>) p t,
             constant_interval = \<lambda>p (w :: real). (map (\<lambda>v. v - w) p, map (\<lambda>v. v + w) p)\<rparr>"
  let ?self = "\<lparr>e_predictor = (), e_B = 1, e_agg_func_loo = concat, e_residuals = 0,
                e_boot_predictors = Some [()], e_random_state = None, e_oob_dict = [[0]],
                e_boot_dict = [[0]], e_oob_matrix = Some [[1 :: real]]\<rparr>"
  let ?X = "[10, 20, 30, 40, 50 :: real]"
  let ?y = "[11, 19, 30, 42, 50 :: real]"
  let ?h = "\<lparr>cells = (\<lambda>r. [])(0 := [1, 2, 3 :: real]), next_ref = 1\<rparr>"
  have wf: "e_residuals ?self < next_ref ?h" by simp
  have ex: "fst (predict ?A ?S ?self ?X (1/2) (Some ?y) (Some 2) ?h)
              = Inr (?X, [8, 18, 29, 39, 49], [12, 22, 31, 41, 51])"
    by (simp add: predict_def batch_step_def np_quantile_linear_def batch_plan_def alloc_def
      list_iadd_def batch_of_def y_pred_of_batch_def compute_pi_def compute_residuals_def
      compute_loo_predictions_def matmul_def Let_def upt_rec)
  note t = predict_leaves_state[OF wf, of ?A ?S ?X "1/2" "Some ?y" "Some 2"]
  have a: "cells (snd (predict ?A ?S ?self ?X (1/2) (Some ?y) (Some 2) ?h)) 0 = [1, 2, 3]"
    using t[THEN conjunct2, THEN conjunct1] by simp
  have b: "fst (predict ?A ?S ?self ?X (1/2) (Some ?y) (Some 2)
                  (snd (predict ?A ?S ?self ?X (1/2) (Some ?y) (Some 2) ?h)))
             = Inr (?X, [8, 18, 29, 39, 49], [12, 22, 31, 41, 51])"
    using t[THEN conjunct2, THEN conjunct2] ex by simp
  show ?thesis using a b by blast
qed

subsection \<open>The sliding window over the whole call\<close>





end
